theory Spec2Isabelle
  imports Main "HOL-Library.Product_Lexorder" "HOL-Library.Monad_Syntax" "HOL-Library.Multiset"
begin

text \<open>
  A shallow embedding of \<open>todocalmenu.go\<close>: the task record, the edit controller
  (\<open>editItem\<close>, \<open>addItem\<close>, \<open>updateStartDate\<close>, \<open>updateStartTime\<close>, \<open>deleteTodo\<close>), the task store
  (\<open>saveTodos\<close>, \<open>loadTodos\<close>, \<open>convertVTodoToTodo\<close>, \<open>parseDateTime\<close>) and the comparison of
  \<open>createMenu\<close>, followed by the properties proved of them. The launcher, the clock, the time
  zone, the file system and the calendar codec are inputs of the model.
\<close>

section \<open>Strings and numbers of the Go standard library\<close>

text \<open>
  Go strings are byte sequences and are modelled as HOL strings. The functions below are the
  ones \<open>todocalmenu.go\<close> calls from the packages \<open>strings\<close> and \<open>strconv\<close>.
  \<open>ToLower\<close> covers the ASCII letters; the program only compares the lowered text with
  \<open>y\<close>, for which ASCII is exact.
\<close>

definition HasPrefix :: "string \<Rightarrow> string \<Rightarrow> bool" where
  "HasPrefix s prefix = (take (length prefix) s = prefix)"

definition HasSuffix :: "string \<Rightarrow> string \<Rightarrow> bool" where
  "HasSuffix s suffix =
     (length suffix \<le> length s \<and> drop (length s - length suffix) s = suffix)"

fun Contains :: "string \<Rightarrow> string \<Rightarrow> bool" where
  "Contains [] substr = (substr = [])"
| "Contains (c # cs) substr = (HasPrefix (c # cs) substr \<or> Contains cs substr)"

text \<open>\<open>strings.Split(s, sep)\<close> for a separator of one byte: the empty string gives one empty piece.\<close>

fun Split :: "string \<Rightarrow> char \<Rightarrow> string list" where
  "Split [] sep = [[]]"
| "Split (c # cs) sep =
     (if c = sep then [] # Split cs sep
      else (case Split cs sep of [] \<Rightarrow> [[c]] | x # xs \<Rightarrow> (c # x) # xs))"

fun Join :: "string list \<Rightarrow> string \<Rightarrow> string" where
  "Join [] sep = []"
| "Join [x] sep = x"
| "Join (x # y # ys) sep = x @ sep @ Join (y # ys) sep"

text \<open>
  \<open>strings.TrimSpace\<close> cuts the runes of \<open>unicode.IsSpace\<close> from both ends. A Go string
  holds UTF-8, so a white space rune is one of the byte sequences below: the six ASCII bytes,
  U+0085, U+00A0, U+1680, U+2000 to U+200A, U+2028, U+2029, U+202F, U+205F and U+3000. The
  encodings are the shortest ones, which are the only ones the decoder accepts, and no other
  rune ends in or starts with one of them.
\<close>

definition spaceRunes :: "string list" where
  "spaceRunes =
     [[CHR 0x09], [CHR 0x0A], [CHR 0x0B], [CHR 0x0C], [CHR 0x0D], [CHR 0x20],
      [CHR 0xC2, CHR 0x85], [CHR 0xC2, CHR 0xA0],
      [CHR 0xE1, CHR 0x9A, CHR 0x80],
      [CHR 0xE2, CHR 0x80, CHR 0x80], [CHR 0xE2, CHR 0x80, CHR 0x81],
      [CHR 0xE2, CHR 0x80, CHR 0x82], [CHR 0xE2, CHR 0x80, CHR 0x83],
      [CHR 0xE2, CHR 0x80, CHR 0x84], [CHR 0xE2, CHR 0x80, CHR 0x85],
      [CHR 0xE2, CHR 0x80, CHR 0x86], [CHR 0xE2, CHR 0x80, CHR 0x87],
      [CHR 0xE2, CHR 0x80, CHR 0x88], [CHR 0xE2, CHR 0x80, CHR 0x89],
      [CHR 0xE2, CHR 0x80, CHR 0x8A],
      [CHR 0xE2, CHR 0x80, CHR 0xA8], [CHR 0xE2, CHR 0x80, CHR 0xA9],
      [CHR 0xE2, CHR 0x80, CHR 0xAF],
      [CHR 0xE2, CHR 0x81, CHR 0x9F],
      [CHR 0xE3, CHR 0x80, CHR 0x80]]"

text \<open>The number of bytes of the white space rune at the start and at the end; 0 if none.\<close>

definition spaceAtStart :: "string \<Rightarrow> nat" where
  "spaceAtStart s = (case find (HasPrefix s) spaceRunes of None \<Rightarrow> 0 | Some w \<Rightarrow> length w)"

definition spaceAtEnd :: "string \<Rightarrow> nat" where
  "spaceAtEnd s = (case find (HasSuffix s) spaceRunes of None \<Rightarrow> 0 | Some w \<Rightarrow> length w)"

lemma spaceRunes_nonempty: "w \<in> set spaceRunes \<Longrightarrow> w \<noteq> []"
  by (auto simp add: spaceRunes_def)

lemma spaceAtStart_shorter: "0 < spaceAtStart s \<Longrightarrow> length s - spaceAtStart s < length s"
proof -
  assume a: "0 < spaceAtStart s"
  then obtain w where w: "find (HasPrefix s) spaceRunes = Some w"
    by (auto simp add: spaceAtStart_def split: option.splits)
  then have "w \<in> set spaceRunes" and "HasPrefix s w"
    by (auto simp add: find_Some_iff)
  then have "s \<noteq> []"
    using spaceRunes_nonempty [of w] by (auto simp add: HasPrefix_def)
  with a show ?thesis by simp
qed

lemma spaceAtEnd_shorter: "0 < spaceAtEnd s \<Longrightarrow> length s - spaceAtEnd s < length s"
proof -
  assume a: "0 < spaceAtEnd s"
  then obtain w where w: "find (HasSuffix s) spaceRunes = Some w"
    by (auto simp add: spaceAtEnd_def split: option.splits)
  then have "w \<in> set spaceRunes" and "HasSuffix s w"
    by (auto simp add: find_Some_iff)
  then have "s \<noteq> []"
    using spaceRunes_nonempty [of w] by (auto simp add: HasSuffix_def)
  with a show ?thesis by simp
qed

function TrimLeftSpace :: "string \<Rightarrow> string" where
  "TrimLeftSpace s =
     (if spaceAtStart s = 0 then s else TrimLeftSpace (drop (spaceAtStart s) s))"
  by pat_completeness auto
termination
  by (relation "measure length") (simp_all add: spaceAtStart_shorter)

function TrimRightSpace :: "string \<Rightarrow> string" where
  "TrimRightSpace s =
     (if spaceAtEnd s = 0 then s else TrimRightSpace (take (length s - spaceAtEnd s) s))"
  by pat_completeness auto
termination
  by (relation "measure length") (simp_all add: spaceAtEnd_shorter)

declare TrimLeftSpace.simps [simp del]

declare TrimRightSpace.simps [simp del]

definition TrimSpace :: "string \<Rightarrow> string" where
  "TrimSpace s = TrimRightSpace (TrimLeftSpace s)"

lemma TrimSpace_empty: "TrimSpace [] = []"
  by (simp add: TrimSpace_def TrimLeftSpace.simps [of "[]"] TrimRightSpace.simps [of "[]"]
      spaceAtStart_def spaceAtEnd_def spaceRunes_def HasPrefix_def HasSuffix_def)

definition TrimRight :: "string \<Rightarrow> string \<Rightarrow> string" where
  "TrimRight s cutset = rev (dropWhile (\<lambda>c. c \<in> set cutset) (rev s))"

definition lowerChar :: "char \<Rightarrow> char" where
  "lowerChar c =
     (let n = (of_char c :: nat) in if 65 \<le> n \<and> n \<le> 90 then char_of (n + 32) else c)"

definition ToLower :: "string \<Rightarrow> string" where
  "ToLower s = map lowerChar s"

definition digitVal :: "char \<Rightarrow> nat option" where
  "digitVal c =
     (let n = (of_char c :: nat) in if 48 \<le> n \<and> n \<le> 57 then Some (n - 48) else None)"

definition isDigit :: "char \<Rightarrow> bool" where
  "isDigit c = (digitVal c \<noteq> None)"

definition digitsVal :: "string \<Rightarrow> nat" where
  "digitsVal ds = foldl (\<lambda>n c. 10 * n + the (digitVal c)) 0 ds"

text \<open>
  \<open>strconv.Atoi\<close> on a 64-bit platform: an optional sign and at least one decimal digit. The
  second component is \<open>err == nil\<close>. A syntax error returns 0, a value out of range the nearest
  bound.
\<close>

definition Atoi :: "string \<Rightarrow> int \<times> bool" where
  "Atoi s =
     (case s of
        [] \<Rightarrow> (0, False)
      | c # cs \<Rightarrow>
          (let neg = (c = CHR ''-'');
               ds = (if c = CHR ''-'' \<or> c = CHR ''+'' then cs else s)
           in if ds = [] \<or> \<not> list_all isDigit ds then (0, False)
              else (let v = (if neg then - int (digitsVal ds) else int (digitsVal ds))
                    in if v > 9223372036854775807 then (9223372036854775807, False)
                       else if v < - 9223372036854775808 then (- 9223372036854775808, False)
                       else (v, True))))"

section \<open>Time\<close>

text \<open>
  A \<open>time.Time\<close> is an absolute instant together with a location that only decides how the
  instant is read as a calendar date and a clock time. The instant is represented by its
  reading in UTC (the proleptic Gregorian calendar makes that reading unique), so \<open>t.Local()\<close>
  and \<open>t.UTC()\<close> leave the representation alone. Every non-zero time the program keeps in a
  task is located in \<open>time.Local\<close>, so the accessors \<open>Year\<close>, \<open>Month\<close>, \<open>Day\<close>, \<open>Hour\<close> and
  \<open>Minute\<close> read the wall clock of \<open>time.Local\<close>.
\<close>

record Civil =
  cYear :: int
  cMonth :: int
  cDay :: int
  cHour :: int
  cMinute :: int
  cSecond :: int
  cNsec :: int

type_synonym Time = Civil

text \<open>
  A location converts between instants and wall clock readings. The process's \<open>time.Local\<close>
  comes from the environment and is a parameter of the model.
\<close>

record Location =
  toWall :: "Time \<Rightarrow> Civil"
  fromWall :: "Civil \<Rightarrow> Time"

definition UTC :: Location where
  "UTC = \<lparr>toWall = (\<lambda>t. t), fromWall = (\<lambda>w. w)\<rparr>"

definition zeroTime :: Time where
  "zeroTime = \<lparr>cYear = 1, cMonth = 1, cDay = 1, cHour = 0, cMinute = 0, cSecond = 0, cNsec = 0\<rparr>"

definition IsZero :: "Time \<Rightarrow> bool" where
  "IsZero t = (t = zeroTime)"

definition stamp :: "Time \<Rightarrow> int \<times> int \<times> int \<times> int \<times> int \<times> int \<times> int" where
  "stamp t = (cYear t, cMonth t, cDay t, cHour t, cMinute t, cSecond t, cNsec t)"

definition Before :: "Time \<Rightarrow> Time \<Rightarrow> bool" where
  "Before t u = (stamp t < stamp u)"

definition After :: "Time \<Rightarrow> Time \<Rightarrow> bool" where
  "After t u = (stamp u < stamp t)"

definition isLeap :: "int \<Rightarrow> bool" where
  "isLeap y = (y mod 4 = 0 \<and> (y mod 100 \<noteq> 0 \<or> y mod 400 = 0))"

definition daysIn :: "int \<Rightarrow> int \<Rightarrow> int" where
  "daysIn m y =
     (if m = 2 then (if isLeap y then 29 else 28)
      else if m = 4 \<or> m = 6 \<or> m = 9 \<or> m = 11 then 30 else 31)"

text \<open>Fixed-width decimal fields of a layout: every byte must be a digit.\<close>

definition fieldVal :: "string \<Rightarrow> int option" where
  "fieldVal ds = (if ds \<noteq> [] \<and> list_all isDigit ds then Some (int (digitsVal ds)) else None)"

text \<open>
  The wall clock reading that \<open>time.ParseInLocation("2006-01-02", s, loc)\<close> accepts: four
  digits, two digits, two digits, separated by \<open>-\<close>, nothing else, the month in 1..12, the day
  within the month.
\<close>

definition parseDate :: "string \<Rightarrow> Civil option" where
  "parseDate s =
     (if length s = 10 \<and> s ! 4 = CHR ''-'' \<and> s ! 7 = CHR ''-'' then
        (case (fieldVal (take 4 s), fieldVal (take 2 (drop 5 s)), fieldVal (drop 8 s)) of
           (Some y, Some m, Some d) \<Rightarrow>
             if 1 \<le> m \<and> m \<le> 12 \<and> 1 \<le> d \<and> d \<le> daysIn m y
             then Some \<lparr>cYear = y, cMonth = m, cDay = d, cHour = 0, cMinute = 0,
                        cSecond = 0, cNsec = 0\<rparr>
             else None
         | _ \<Rightarrow> None)
      else None)"

section \<open>Tasks, the store and the environment\<close>

record Todo =
  UID :: string
  Summary :: string
  Description :: string
  Categories :: "string list"
  Status :: string
  Created :: Time
  LastMod :: Time
  DueDate :: Time
  Priority :: int
  StartDate :: Time
  Modified :: bool

text \<open>
  What the launcher answers to one call of \<open>display\<close>: exit status 1 with nothing on standard
  error (\<open>Escape\<close>), a selection on standard output (\<open>Answer\<close>), or any other failure, on which
  \<open>display\<close> calls \<open>log.Fatal\<close> (\<open>Crash\<close>).
\<close>

datatype reply = Escape | Answer string | Crash

text \<open>
  The program's state. \<open>TodoList.Todos\<close> is a slice of pointers, so the tasks live in a heap
  and the list holds their addresses. \<open>files\<close> is the content of the file system, \<open>locked\<close> the
  paths on which creating and removing fail, \<open>script\<close> the launcher's coming answers and
  \<open>ticks\<close> the number of times the clock has been read.
\<close>

record world =
  heap :: "nat \<Rightarrow> Todo"
  Todos :: "nat list"
  files :: "string \<rightharpoonup> string"
  locked :: "string list"
  script :: "reply list"
  ticks :: nat

text \<open>
  The calendar documents of the library \<open>golang-ical\<close>, as far as the program reads and
  writes them: a component is a to-do with its list of properties (token and value) or
  anything else, which the program leaves alone. Property parameters and sub-components are
  never read by the program and are not modelled.
\<close>

type_synonym IANAProperty = "string \<times> string"

datatype Component = VTodo "IANAProperty list" | Other string

record Calendar =
  CalendarProperties :: "IANAProperty list"
  Components :: "Component list"

text \<open>
  What the program takes from its environment: the local time zone, the clock (its n-th
  reading), \<open>fmt.Sscanf\<close> for the two formats of \<open>updateStartTime\<close> (\<open>Some (hour, min)\<close> when it
  returns no error), the \<open>-todo\<close> flag, \<open>filepath.Join\<close>, the decimal text of \<open>t.UnixNano()\<close>,
  the time zone database (\<open>time.LoadLocation\<close>) and the codec of the calendar library
  (\<open>ics.ParseCalendar\<close>, \<open>Calendar.SerializeTo\<close>, \<open>ics.NewCalendar\<close> and \<open>ics.FromText\<close>, which
  undoes the escaping of a text value); \<open>None\<close> is an error.
\<close>

record env =
  Local :: Location
  clock :: "nat \<Rightarrow> Time"
  Sscanf :: "string \<Rightarrow> string \<Rightarrow> (int \<times> int) option"
  todoPtr :: string
  filepathJoin :: "string \<Rightarrow> string \<Rightarrow> string"
  UnixNanoText :: "Time \<Rightarrow> string"
  LoadLocation :: "string \<Rightarrow> Location option"
  ParseCalendar :: "string \<Rightarrow> Calendar option"
  SerializeTo :: "Calendar \<Rightarrow> string option"
  NewCalendar :: Calendar
  FromText :: "string \<Rightarrow> string"

definition Now :: "env \<Rightarrow> world \<Rightarrow> Time \<times> world" where
  "Now E s = (clock E (ticks s), s\<lparr>ticks := Suc (ticks s)\<rparr>)"

definition Year :: "env \<Rightarrow> Time \<Rightarrow> int" where
  "Year E t = cYear (toWall (Local E) t)"

definition Month :: "env \<Rightarrow> Time \<Rightarrow> int" where
  "Month E t = cMonth (toWall (Local E) t)"

definition Day :: "env \<Rightarrow> Time \<Rightarrow> int" where
  "Day E t = cDay (toWall (Local E) t)"

definition Hour :: "env \<Rightarrow> Time \<Rightarrow> int" where
  "Hour E t = cHour (toWall (Local E) t)"

definition Minute :: "env \<Rightarrow> Time \<Rightarrow> int" where
  "Minute E t = cMinute (toWall (Local E) t)"

text \<open>
  \<open>time.Date(y, m, d, h, mi, s, ns, time.Local)\<close>. The program only passes fields that are in
  range (parsed dates, validated hours and minutes, fields read from a time), so the
  normalisation of overflowing fields is not modelled.
\<close>

definition Date :: "env \<Rightarrow> int \<Rightarrow> int \<Rightarrow> int \<Rightarrow> int \<Rightarrow> int \<Rightarrow> int \<Rightarrow> int \<Rightarrow> Time" where
  "Date E y m d h mi sec ns =
     fromWall (Local E)
       \<lparr>cYear = y, cMonth = m, cDay = d, cHour = h, cMinute = mi, cSecond = sec, cNsec = ns\<rparr>"

definition ParseInLocationDate :: "env \<Rightarrow> string \<Rightarrow> Time option" where
  "ParseInLocationDate E s = map_option (fromWall (Local E)) (parseDate s)"

text \<open>
  \<open>display\<close>: the next answer of the launcher. The result is \<open>(result, e \<noteq> nil)\<close>; \<open>None\<close> is
  \<open>log.Fatal\<close>, which ends the process. A script that has run out counts as a launcher that
  failed. The menu text and the title only go to the launcher and are not computed.
\<close>

definition display :: "world \<Rightarrow> ((string \<times> bool) \<times> world) option" where
  "display s =
     (case script s of
        [] \<Rightarrow> None
      | Crash # rs \<Rightarrow> None
      | Escape # rs \<Rightarrow> Some (([], True), s\<lparr>script := rs\<rparr>)
      | Answer out # rs \<Rightarrow> Some ((TrimRight out [CHR 0x0A], False), s\<lparr>script := rs\<rparr>))"

definition setTodo :: "nat \<Rightarrow> Todo \<Rightarrow> world \<Rightarrow> world" where
  "setTodo r t s = s\<lparr>heap := (heap s)(r := t)\<rparr>"

section \<open>The edit controller\<close>

definition updateStartDate :: "env \<Rightarrow> nat \<Rightarrow> string \<Rightarrow> world \<Rightarrow> world" where
  "updateStartDate E r dateStr s =
     (let todo = heap s r in
      if dateStr = [] then setTodo r (todo\<lparr>StartDate := zeroTime\<rparr>) s
      else (case ParseInLocationDate E dateStr of
              None \<Rightarrow> s
            | Some date \<Rightarrow>
                if \<not> IsZero (StartDate todo)
                then setTodo r
                       (todo\<lparr>StartDate :=
                               Date E (Year E date) (Month E date) (Day E date)
                                 (Hour E (StartDate todo)) (Minute E (StartDate todo)) 0 0,
                             Modified := True\<rparr>) s
                else setTodo r (todo\<lparr>StartDate := date, Modified := True\<rparr>) s))"

definition updateStartTime :: "env \<Rightarrow> nat \<Rightarrow> string \<Rightarrow> world \<Rightarrow> world" where
  "updateStartTime E r timeStr s =
     (if timeStr = [] then s
      else (case (if Contains timeStr '':'' then Sscanf E timeStr ''%d:%d''
                  else Sscanf E timeStr ''%02d%02d'') of
              None \<Rightarrow> s
            | Some (hour, minute) \<Rightarrow>
                if hour \<ge> 0 \<and> hour < 24 \<and> minute \<ge> 0 \<and> minute < 60 then
                  (let s1 = (if IsZero (StartDate (heap s r))
                             then (let (now, s') = Now E s
                                   in setTodo r ((heap s' r)\<lparr>StartDate := now\<rparr>) s')
                             else s);
                       todo = heap s1 r
                   in setTodo r
                        (todo\<lparr>StartDate :=
                                Date E (Year E (StartDate todo)) (Month E (StartDate todo))
                                  (Day E (StartDate todo)) hour minute 0 0,
                              Modified := True\<rparr>) s1)
                else s))"

text \<open>
  \<open>os.Remove\<close>: fails when there is no such file or the path is locked.
\<close>

definition osRemove :: "string \<Rightarrow> world \<Rightarrow> world option" where
  "osRemove path s =
     (if files s path \<noteq> None \<and> path \<notin> set (locked s)
      then Some (s\<lparr>files := (files s)(path := None)\<rparr>) else None)"

text \<open>The loop of \<open>deleteTodo\<close>: the first entry with the UID is cut out of the slice.\<close>

fun removeFirstUID :: "(nat \<Rightarrow> Todo) \<Rightarrow> string \<Rightarrow> nat list \<Rightarrow> nat list" where
  "removeFirstUID h uid [] = []"
| "removeFirstUID h uid (t # ts) =
     (if UID (h t) = uid then ts else t # removeFirstUID h uid ts)"

definition deleteTodo :: "env \<Rightarrow> nat \<Rightarrow> world \<Rightarrow> bool \<times> world" where
  "deleteTodo E r s =
     (let s1 = s\<lparr>Todos := removeFirstUID (heap s) (UID (heap s r)) (Todos s)\<rparr>;
          filePath = filepathJoin E (todoPtr E) (UID (heap s r) @ ''.ics'')
      in case osRemove filePath s1 of
           None \<Rightarrow> (False, s1)
         | Some s2 \<Rightarrow> (True, s2))"

text \<open>
  The cases of the \<open>switch\<close> in \<open>editItem\<close>, one definition for each case that opens a
  sub-prompt. \<open>r\<close> is the address of the task being edited.
\<close>

definition editTitle :: "nat \<Rightarrow> world \<Rightarrow> world option" where
  "editTitle r s =
     do { ((tn, e), s1) \<leftarrow> display s;
          Some (if \<not> e then setTodo r ((heap s1 r)\<lparr>Summary := tn, Modified := True\<rparr>) s1
                else s1) }"

definition editPriority :: "nat \<Rightarrow> world \<Rightarrow> world option" where
  "editPriority r s =
     do { ((p, e), s1) \<leftarrow> display s;
          if \<not> e then
            (let (pn, ok) = Atoi p in
             if ok \<and> pn \<ge> 0 \<and> pn \<le> 9
             then Some (setTodo r
                          ((heap s1 r)\<lparr>Priority := (if pn = 0 then 0 else pn),
                                        Modified := True\<rparr>) s1)
             else do { (_, s2) \<leftarrow> display s1; Some s2 })
          else Some s1 }"

definition trimCategories :: "string list \<Rightarrow> string list" where
  "trimCategories cats =
     (let trimmed = map TrimSpace cats
      in if length trimmed = 1 \<and> trimmed ! 0 = [] then [] else trimmed)"

definition editCategories :: "nat \<Rightarrow> world \<Rightarrow> world option" where
  "editCategories r s =
     do { ((cats, e), s1) \<leftarrow> display s;
          if \<not> e then
            do { (split, s2) \<leftarrow>
                   (if cats = ''<Enter new category>''
                    then do { ((newCats, _), s2) \<leftarrow> display s1;
                              Some (Split newCats CHR '','', s2) }
                    else Some (Split cats CHR '','', s1));
                 Some (setTodo r
                         ((heap s2 r)\<lparr>Categories := trimCategories split,
                                       Modified := True\<rparr>) s2) }
          else Some s1 }"

definition editDueDate :: "env \<Rightarrow> nat \<Rightarrow> world \<Rightarrow> world option" where
  "editDueDate E r s =
     do { ((d, e), s1) \<leftarrow> display s;
          if \<not> e then
            (if d = [] then Some (setTodo r ((heap s1 r)\<lparr>DueDate := zeroTime\<rparr>) s1)
             else (case ParseInLocationDate E d of
                     None \<Rightarrow> do { (_, s2) \<leftarrow> display s1; Some s2 }
                   | Some td \<Rightarrow>
                       Some (setTodo r ((heap s1 r)\<lparr>DueDate := td, Modified := True\<rparr>) s1)))
          else Some s1 }"

definition editStartDate :: "env \<Rightarrow> nat \<Rightarrow> world \<Rightarrow> world option" where
  "editStartDate E r s =
     do { ((d, e), s1) \<leftarrow> display s;
          Some (if \<not> e then updateStartDate E r d s1 else s1) }"

definition editStartTime :: "env \<Rightarrow> nat \<Rightarrow> world \<Rightarrow> world option" where
  "editStartTime E r s =
     do { ((t, e), s1) \<leftarrow> display s;
          Some (if \<not> e then updateStartTime E r t s1 else s1) }"

definition editDescription :: "nat \<Rightarrow> world \<Rightarrow> world option" where
  "editDescription r s =
     do { ((desc, e), s1) \<leftarrow> display s;
          Some (if \<not> e then setTodo r ((heap s1 r)\<lparr>Description := desc, Modified := True\<rparr>) s1
                else s1) }"

definition setStatus :: "env \<Rightarrow> nat \<Rightarrow> string \<Rightarrow> world \<Rightarrow> world" where
  "setStatus E r status s =
     (let s1 = setTodo r ((heap s r)\<lparr>Status := status\<rparr>) s;
          (now, s2) = Now E s1
      in setTodo r ((heap s2 r)\<lparr>LastMod := now, Modified := True\<rparr>) s2)"

text \<open>
  How one pass of the loop ends: \<open>Continue\<close> runs the loop again, \<open>Stop\<close> leaves \<open>editItem\<close>
  through the exit it names.
\<close>

datatype exit = Saved | Cancelled | Deleted

datatype step = Continue | Stop exit

definition editDelete :: "env \<Rightarrow> nat \<Rightarrow> world \<Rightarrow> (step \<times> world) option" where
  "editDelete E r s =
     do { ((confirm, _), s1) \<leftarrow> display s;
          if ToLower confirm = ''y''
          then (case deleteTodo E r s1 of
                  (True, s2) \<Rightarrow> Some (Stop Deleted, s2)
                | (False, s2) \<Rightarrow> Some (Continue, s2))
          else Some (Continue, s1) }"

definition continue :: "world option \<Rightarrow> (step \<times> world) option" where
  "continue x = map_option (Pair Continue) x"

definition editSwitch :: "env \<Rightarrow> nat \<Rightarrow> string \<Rightarrow> world \<Rightarrow> (step \<times> world) option" where
  "editSwitch E r out s =
     (if out = ''Save item'' then
        (let s1 = setTodo r ((heap s r)\<lparr>Modified := True\<rparr>) s;
             (now, s2) = Now E s1
         in Some (Stop Saved, setTodo r ((heap s2 r)\<lparr>LastMod := now\<rparr>) s2))
      else if HasPrefix out ''Title'' then continue (editTitle r s)
      else if HasPrefix out ''Priority'' then continue (editPriority r s)
      else if HasPrefix out ''Categories'' then continue (editCategories r s)
      else if HasPrefix out ''Due date'' then continue (editDueDate E r s)
      else if HasPrefix out ''Start date'' then continue (editStartDate E r s)
      else if HasPrefix out ''Start time'' then continue (editStartTime E r s)
      else if HasPrefix out ''Description'' then continue (editDescription r s)
      else if HasPrefix out ''Complete item'' then Some (Continue, setStatus E r ''COMPLETED'' s)
      else if HasPrefix out ''Restore item'' then Some (Continue, setStatus E r ''NEEDS-ACTION'' s)
      else if HasPrefix out ''Delete item'' then editDelete E r s
      else Some (Continue, s))"

lemma display_script:
  "display s = Some (x, s1) \<Longrightarrow> length (script s1) < length (script s)"
  by (auto simp: display_def split: list.splits reply.splits)

lemma updateStartDate_script: "script (updateStartDate E r d s) = script s"
  by (simp add: updateStartDate_def setTodo_def Let_def split: option.splits)

lemma updateStartTime_script: "script (updateStartTime E r t s) = script s"
  by (simp add: updateStartTime_def setTodo_def Now_def Let_def split: option.splits prod.splits)

lemma deleteTodo_script: "script (snd (deleteTodo E r s)) = script s"
  by (auto simp: deleteTodo_def osRemove_def Let_def split: option.splits)

lemma editSwitch_script:
  assumes "editSwitch E r out s = Some (x, s')"
  shows "length (script s') \<le> length (script s)"
proof -
  have d: "\<And>a b c. display a = Some (b, c) \<Longrightarrow> length (script c) \<le> length (script a)"
    using display_script by (simp add: less_imp_le)
  have del: "\<And>b c. deleteTodo E r b = c \<Longrightarrow> script (snd c) = script b"
    using deleteTodo_script by blast
  show ?thesis
    using assms unfolding editSwitch_def continue_def
    by (auto simp: editTitle_def editPriority_def editCategories_def editDueDate_def
          editStartDate_def editStartTime_def editDescription_def editDelete_def setStatus_def
          setTodo_def Now_def Let_def updateStartDate_script updateStartTime_script
          bind_eq_Some_conv
        split: if_splits prod.splits option.splits bool.splits
        dest!: d del)
qed

text \<open>
  The loop of \<open>editItem\<close>. \<open>originalTodo\<close> is the copy taken on entry and \<open>isNew\<close> the test
  \<open>todo.UID == ""\<close> made there. The copy shares the array of its \<open>Categories\<close> with the
  task, but the loop only ever gives the task a new slice and writes into that one, so the
  copy keeps its categories and is a value. The exit is returned with the state.
\<close>

function editLoop :: "env \<Rightarrow> Todo \<Rightarrow> bool \<Rightarrow> nat \<Rightarrow> world \<Rightarrow> (exit \<times> world) option" where
  "editLoop E originalTodo isNew r s =
     (case display s of
        None \<Rightarrow> None
      | Some ((out, e), s1) \<Rightarrow>
          if e then (if isNew then Some (Cancelled, s1)
                     else Some (Cancelled, setTodo r originalTodo s1))
          else (case editSwitch E r out s1 of
                  None \<Rightarrow> None
                | Some (Stop x, s2) \<Rightarrow> Some (x, s2)
                | Some (Continue, s2) \<Rightarrow> editLoop E originalTodo isNew r s2))"
  by pat_completeness auto
termination
proof (relation "measure (\<lambda>(E, originalTodo, isNew, r, s). length (script s))")
  show "wf (measure (\<lambda>(E, originalTodo, isNew, r, s). length (script s)))"
    by simp
next
  fix E :: env and originalTodo :: Todo and isNew :: bool and r :: nat and s :: world
    and x2 x y out e s1 x2a s2 and st :: step
  assume "display s = Some x2" "(x, s1) = x2" "(out, e) = x"
    and "editSwitch E r out s1 = Some x2a" "(st, s2) = x2a"
  then have "length (script s1) < length (script s)" "length (script s2) \<le> length (script s1)"
    using display_script [of s x s1] editSwitch_script [of E r out s1 st s2] by auto
  then show "((E, originalTodo, isNew, r, s2), (E, originalTodo, isNew, r, s))
             \<in> measure (\<lambda>(E, originalTodo, isNew, r, s). length (script s))"
    by simp
qed

definition editItem :: "env \<Rightarrow> nat \<Rightarrow> world \<Rightarrow> (exit \<times> world) option" where
  "editItem E r s = editLoop E (heap s r) (UID (heap s r) = []) r s"

text \<open>
  \<open>addItem\<close>. The new task is a fresh object: its address is one the list does not hold.
  \<open>generateUID\<close> reads the clock first, then the two fields \<open>Created\<close> and \<open>LastMod\<close> do.
\<close>

definition newRef :: "nat list \<Rightarrow> nat" where
  "newRef rs = Suc (fold max rs 0)"

definition generateUID :: "env \<Rightarrow> world \<Rightarrow> string \<times> world" where
  "generateUID E s = (let (now, s1) = Now E s in (UnixNanoText E now, s1))"

definition newTodo :: "env \<Rightarrow> world \<Rightarrow> nat \<times> world" where
  "newTodo E s =
     (let (uid, s1) = generateUID E s;
          (created, s2) = Now E s1;
          (lastMod, s3) = Now E s2;
          r = newRef (Todos s3)
      in (r, setTodo r
               \<lparr>UID = uid, Summary = [], Description = [], Categories = [],
                Status = ''NEEDS-ACTION'', Created = created, LastMod = lastMod,
                DueDate = zeroTime, Priority = 0, StartDate = zeroTime, Modified = False\<rparr> s3))"

definition addItem :: "env \<Rightarrow> world \<Rightarrow> world option" where
  "addItem E s =
     (let (r, s4) = newTodo E s
      in do { ((summary, e), s5) \<leftarrow> display s4;
              let s6 = setTodo r ((heap s5 r)\<lparr>Summary := summary\<rparr>) s5 in
              if e then Some s6
              else if summary \<noteq> [] then
                do { (_, s7) \<leftarrow> editItem E r s6;
                     if Summary (heap s7 r) \<noteq> [] \<and> Modified (heap s7 r)
                     then (let (now, s8) = Now E s7
                           in Some ((setTodo r ((heap s8 r)\<lparr>LastMod := now\<rparr>) s8)
                                      \<lparr>Todos := Todos s8 @ [r]\<rparr>))
                     else Some s7 }
              else Some s6 })"

text \<open>
  The confirmed branch of \<open>Delete All Completed\<close> in \<open>viewCompletedItems\<close>: the tasks are
  split into completed and remaining ones, every completed one is deleted, one whose deletion
  failed is appended to the remaining ones, and these become the list.
\<close>

fun deleteEach :: "env \<Rightarrow> nat list \<Rightarrow> nat list \<Rightarrow> world \<Rightarrow> nat list \<times> world" where
  "deleteEach E [] remainingTodos s = (remainingTodos, s)"
| "deleteEach E (t # ts) remainingTodos s =
     (case deleteTodo E t s of
        (True, s1) \<Rightarrow> deleteEach E ts remainingTodos s1
      | (False, s1) \<Rightarrow> deleteEach E ts (remainingTodos @ [t]) s1)"

definition deleteAllCompleted :: "env \<Rightarrow> world \<Rightarrow> world" where
  "deleteAllCompleted E s =
     (let completedTodos = filter (\<lambda>t. Status (heap s t) = ''COMPLETED'') (Todos s);
          remainingTodos = filter (\<lambda>t. Status (heap s t) \<noteq> ''COMPLETED'') (Todos s);
          (remaining, s1) = deleteEach E completedTodos remainingTodos s
      in s1\<lparr>Todos := remaining\<rparr>)"

section \<open>The task store\<close>

text \<open>
  Decimal output: \<open>strconv.Itoa\<close>, and the zero-padded fields of \<open>Time.Format\<close>.
\<close>

definition digitChar :: "nat \<Rightarrow> char" where
  "digitChar n = char_of (48 + n)"

function natDigits :: "nat \<Rightarrow> string" where
  "natDigits n = (if n < 10 then [digitChar n] else natDigits (n div 10) @ [digitChar (n mod 10)])"
  by pat_completeness auto
termination
  by (relation "measure (\<lambda>n. n)") auto

definition Itoa :: "int \<Rightarrow> string" where
  "Itoa i = (if i < 0 then CHR ''-'' # natDigits (nat (- i)) else natDigits (nat i))"

definition appendInt :: "int \<Rightarrow> nat \<Rightarrow> string" where
  "appendInt x width =
     (let ds = natDigits (nat \<bar>x\<bar>)
      in (if x < 0 then ''-'' else []) @ replicate (width - length ds) CHR ''0'' @ ds)"

text \<open>\<open>t.UTC().Format("20060102T150405Z")\<close>: the reading in UTC, the \<open>Z\<close> is literal.\<close>

definition formatUTC :: "Time \<Rightarrow> string" where
  "formatUTC t =
     appendInt (cYear t) 4 @ appendInt (cMonth t) 2 @ appendInt (cDay t) 2 @ ''T'' @
     appendInt (cHour t) 2 @ appendInt (cMinute t) 2 @ appendInt (cSecond t) 2 @ ''Z''"

text \<open>
  The property list of a component: \<open>GetProperty\<close>, \<open>SetProperty\<close> and \<open>Id\<close> of the library.
  \<open>Id\<close> returns the value of the \<open>UID\<close> property read through \<open>FromText\<close>, and the empty
  string when there is none.
\<close>

definition GetProperty :: "IANAProperty list \<Rightarrow> string \<Rightarrow> IANAProperty option" where
  "GetProperty props name = find (\<lambda>p. fst p = name) props"

fun SetProperty :: "IANAProperty list \<Rightarrow> string \<Rightarrow> string \<Rightarrow> IANAProperty list" where
  "SetProperty [] name v = [(name, v)]"
| "SetProperty (p # ps) name v =
     (if fst p = name then (name, v) # ps else p # SetProperty ps name v)"

definition Id :: "env \<Rightarrow> IANAProperty list \<Rightarrow> string" where
  "Id E props = (case GetProperty props ''UID'' of None \<Rightarrow> [] | Some p \<Rightarrow> FromText E (snd p))"

fun removeProperty :: "IANAProperty list \<Rightarrow> string \<Rightarrow> IANAProperty list" where
  "removeProperty [] name = []"
| "removeProperty (p # ps) name = (if fst p = name then ps else p # removeProperty ps name)"

definition setPropertyIfNotEmpty ::
  "IANAProperty list \<Rightarrow> string \<Rightarrow> string \<Rightarrow> IANAProperty list" where
  "setPropertyIfNotEmpty props name v =
     (if v \<noteq> [] then SetProperty props name v else removeProperty props name)"

text \<open>The block of \<open>saveTodos\<close> that writes the fields of one task into its component.\<close>

definition writeFields :: "Todo \<Rightarrow> IANAProperty list \<Rightarrow> IANAProperty list" where
  "writeFields todo p0 =
     (let p1 = setPropertyIfNotEmpty p0 ''SUMMARY'' (Summary todo);
          p2 = setPropertyIfNotEmpty p1 ''DESCRIPTION'' (Description todo);
          p3 = setPropertyIfNotEmpty p2 ''STATUS'' (Status todo);
          p4 = setPropertyIfNotEmpty p3 ''LAST-MODIFIED'' (formatUTC (LastMod todo));
          p5 = (if \<not> IsZero (StartDate todo)
                then setPropertyIfNotEmpty p4 ''DTSTART'' (formatUTC (StartDate todo))
                else removeProperty p4 ''DTSTART'');
          p6 = (if \<not> IsZero (DueDate todo)
                then setPropertyIfNotEmpty p5 ''DUE'' (formatUTC (DueDate todo))
                else removeProperty p5 ''DUE'');
          p7 = (if Priority todo > 0
                then setPropertyIfNotEmpty p6 ''PRIORITY'' (Itoa (Priority todo))
                else removeProperty p6 ''PRIORITY'');
          p8 = (if length (Categories todo) > 0
                then setPropertyIfNotEmpty p7 ''CATEGORIES'' (Join (Categories todo) '','')
                else removeProperty p7 ''CATEGORIES'')
      in if GetProperty p8 ''CREATED'' = None
         then setPropertyIfNotEmpty p8 ''CREATED'' (formatUTC (Created todo))
         else p8)"

text \<open>
  The component of the task in the calendar: the first to-do with the task's UID, or a new
  one (\<open>AddTodo\<close>) at the end, which starts with the UID as its only property.
\<close>

fun updateVTodo ::
  "env \<Rightarrow> (IANAProperty list \<Rightarrow> IANAProperty list) \<Rightarrow> string \<Rightarrow> Component list
     \<Rightarrow> Component list" where
  "updateVTodo E f uid [] = [VTodo (f [(''UID'', uid)])]"
| "updateVTodo E f uid (VTodo props # cs) =
     (if Id E props = uid then VTodo (f props) # cs
      else VTodo props # updateVTodo E f uid cs)"
| "updateVTodo E f uid (Other x # cs) = Other x # updateVTodo E f uid cs"

text \<open>
  One pass of the loop of \<open>saveTodos\<close> for a modified task. The result is \<open>(err == nil, state)\<close>.
  \<open>os.Create\<close> fails on a locked path and otherwise truncates the file.
\<close>

definition saveOne :: "env \<Rightarrow> string \<Rightarrow> nat \<Rightarrow> world \<Rightarrow> bool \<times> world" where
  "saveOne E dirPath r s =
     (let todo = heap s r;
          filePath = filepathJoin E dirPath (UID todo @ ''.ics'')
      in case (case files s filePath of
                 Some data \<Rightarrow> ParseCalendar E data
               | None \<Rightarrow> Some (NewCalendar E)) of
           None \<Rightarrow> (False, s)
         | Some cal \<Rightarrow>
             (let cal' = cal\<lparr>Components :=
                               updateVTodo E (writeFields todo) (UID todo) (Components cal)\<rparr>
              in if filePath \<in> set (locked s) then (False, s)
                 else (case SerializeTo E cal' of
                         None \<Rightarrow> (False, s\<lparr>files := (files s)(filePath \<mapsto> [])\<rparr>)
                       | Some text \<Rightarrow>
                           (True, setTodo r (todo\<lparr>Modified := False\<rparr>)
                                    (s\<lparr>files := (files s)(filePath \<mapsto> text)\<rparr>)))))"

fun saveLoop :: "env \<Rightarrow> string \<Rightarrow> nat list \<Rightarrow> world \<Rightarrow> bool \<times> world" where
  "saveLoop E dirPath [] s = (True, s)"
| "saveLoop E dirPath (r # rs) s =
     (if \<not> Modified (heap s r) then saveLoop E dirPath rs s
      else (case saveOne E dirPath r s of
              (False, s1) \<Rightarrow> (False, s1)
            | (True, s1) \<Rightarrow> saveLoop E dirPath rs s1))"

definition saveTodos :: "env \<Rightarrow> string \<Rightarrow> world \<Rightarrow> bool \<times> world" where
  "saveTodos E dirPath s = saveLoop E dirPath (Todos s) s"

text \<open>
  Reading times. \<open>parseClock\<close> is what \<open>time.Parse\<close> accepts for the layout
  \<open>20060102T150405\<close> at the start of its input: fields of fixed width, each in its range, the
  day within its month, and after the seconds an optional fraction (a period or comma and
  digits, of which nine count), which \<open>time.Parse\<close> reads although the layout has none. The
  rest of the input is returned with the reading.
\<close>

definition fraction :: "string \<Rightarrow> int \<times> string" where
  "fraction rest =
     (case rest of
        c # d # ds \<Rightarrow>
          if (c = CHR ''.'' \<or> c = CHR '','') \<and> isDigit d
          then (int (digitsVal (take 9 (takeWhile isDigit (d # ds) @ replicate 9 CHR ''0''))),
                dropWhile isDigit (d # ds))
          else (0, rest)
      | _ \<Rightarrow> (0, rest))"

definition parseClock :: "string \<Rightarrow> (Civil \<times> string) option" where
  "parseClock s =
     (if length s \<ge> 15 \<and> s ! 8 = CHR ''T'' then
        do { y \<leftarrow> fieldVal (take 4 s);
             mo \<leftarrow> fieldVal (take 2 (drop 4 s));
             d \<leftarrow> fieldVal (take 2 (drop 6 s));
             h \<leftarrow> fieldVal (take 2 (drop 9 s));
             mi \<leftarrow> fieldVal (take 2 (drop 11 s));
             sec \<leftarrow> fieldVal (take 2 (drop 13 s));
             if 1 \<le> mo \<and> mo \<le> 12 \<and> 1 \<le> d \<and> d \<le> daysIn mo y \<and> h < 24 \<and> mi < 60 \<and> sec < 60
             then (let (ns, rest) = fraction (drop 15 s)
                   in Some (\<lparr>cYear = y, cMonth = mo, cDay = d, cHour = h, cMinute = mi,
                             cSecond = sec, cNsec = ns\<rparr>, rest))
             else None }
      else None)"

text \<open>\<open>time.Parse("20060102T150405Z", s)\<close>: the reading is one in UTC, the \<open>Z\<close> is literal.\<close>

definition parseUTC :: "string \<Rightarrow> Time option" where
  "parseUTC s =
     (case parseClock s of
        Some (c, rest) \<Rightarrow> if rest = ''Z'' then Some c else None
      | None \<Rightarrow> None)"

text \<open>\<open>time.ParseInLocation("20060102T150405", s, loc)\<close> and the layout \<open>20060102\<close>.\<close>

definition parseClockIn :: "Location \<Rightarrow> string \<Rightarrow> Time option" where
  "parseClockIn loc s =
     (case parseClock s of
        Some (c, rest) \<Rightarrow> if rest = [] then Some (fromWall loc c) else None
      | None \<Rightarrow> None)"

definition parseDayIn :: "Location \<Rightarrow> string \<Rightarrow> Time option" where
  "parseDayIn loc s =
     (if length s = 8 then
        (case (fieldVal (take 4 s), fieldVal (take 2 (drop 4 s)), fieldVal (drop 6 s)) of
           (Some y, Some m, Some d) \<Rightarrow>
             if 1 \<le> m \<and> m \<le> 12 \<and> 1 \<le> d \<and> d \<le> daysIn m y
             then Some (fromWall loc \<lparr>cYear = y, cMonth = m, cDay = d, cHour = 0, cMinute = 0,
                                      cSecond = 0, cNsec = 0\<rparr>)
             else None
         | _ \<Rightarrow> None)
      else None)"

text \<open>\<open>strings.SplitN(s, sep, 2)\<close> when it gives two parts, for a separator of one byte.\<close>

definition SplitN2 :: "string \<Rightarrow> char \<Rightarrow> (string \<times> string) option" where
  "SplitN2 s sep =
     (if sep \<in> set s
      then Some (takeWhile (\<lambda>c. c \<noteq> sep) s, tl (dropWhile (\<lambda>c. c \<noteq> sep) s))
      else None)"

text \<open>
  \<open>parseDateTime\<close>. Every path on which a parse fails ends in the zero time: in the first and
  the last branch through \<open>err != nil\<close>, in the \<open>TZID\<close> branch because \<open>t\<close> is still, or again,
  the zero time.
\<close>

definition parseDateTime :: "env \<Rightarrow> string \<Rightarrow> Time" where
  "parseDateTime E v =
     (if HasSuffix v ''Z'' then
        (case parseUTC v of Some t \<Rightarrow> t | None \<Rightarrow> zeroTime)
      else if Contains v ''TZID='' then
        (case SplitN2 v CHR '':'' of
           None \<Rightarrow> zeroTime
         | Some (param, dateTimeStr) \<Rightarrow>
             (case SplitN2 param CHR ''='' of
                None \<Rightarrow> zeroTime
              | Some (_, tzName) \<Rightarrow>
                  (case LoadLocation E tzName of
                     None \<Rightarrow> zeroTime
                   | Some loc \<Rightarrow>
                       (case parseClockIn loc dateTimeStr of
                          Some t \<Rightarrow> t | None \<Rightarrow> zeroTime))))
      else if length v = 8 then
        (case parseDayIn (Local E) v of Some t \<Rightarrow> t | None \<Rightarrow> zeroTime)
      else if length v = 15 then
        (case parseClockIn (Local E) v of Some t \<Rightarrow> t | None \<Rightarrow> zeroTime)
      else zeroTime)"

definition propertyValue :: "IANAProperty list \<Rightarrow> string \<Rightarrow> string option" where
  "propertyValue props name = map_option snd (GetProperty props name)"

definition convertVTodoToTodo :: "env \<Rightarrow> IANAProperty list \<Rightarrow> Todo" where
  "convertVTodoToTodo E props =
     \<lparr>UID = Id E props,
      Summary = (case propertyValue props ''SUMMARY'' of Some v \<Rightarrow> v | None \<Rightarrow> []),
      Description = (case propertyValue props ''DESCRIPTION'' of Some v \<Rightarrow> v | None \<Rightarrow> []),
      Categories =
        (case propertyValue props ''CATEGORIES'' of Some v \<Rightarrow> Split v CHR '','' | None \<Rightarrow> []),
      Status = (case propertyValue props ''STATUS'' of Some v \<Rightarrow> v | None \<Rightarrow> ''NEEDS-ACTION''),
      Created =
        (case propertyValue props ''CREATED'' of
           Some v \<Rightarrow> parseDateTime E v | None \<Rightarrow> zeroTime),
      LastMod =
        (case propertyValue props ''LAST-MODIFIED'' of
           Some v \<Rightarrow> parseDateTime E v | None \<Rightarrow> zeroTime),
      DueDate =
        (case propertyValue props ''DUE'' of Some v \<Rightarrow> parseDateTime E v | None \<Rightarrow> zeroTime),
      Priority = (case propertyValue props ''PRIORITY'' of Some v \<Rightarrow> fst (Atoi v) | None \<Rightarrow> 0),
      StartDate =
        (case propertyValue props ''DTSTART'' of
           Some v \<Rightarrow> parseDateTime E v | None \<Rightarrow> zeroTime),
      Modified = False\<rparr>"

text \<open>
  \<open>loadTodos\<close> over the names \<open>os.ReadDir\<close> lists for the directory: a name without the
  extension \<open>.ics\<close> is passed over, so is a file that cannot be read or parsed, and every
  to-do component of a calendar gives one task.
\<close>

definition Ext :: "string \<Rightarrow> string" where
  "Ext name =
     (if CHR ''.'' \<in> set name then CHR ''.'' # rev (takeWhile (\<lambda>c. c \<noteq> CHR ''.'') (rev name))
      else [])"

fun todosOf :: "env \<Rightarrow> Component list \<Rightarrow> Todo list" where
  "todosOf E [] = []"
| "todosOf E (VTodo props # cs) = convertVTodoToTodo E props # todosOf E cs"
| "todosOf E (Other x # cs) = todosOf E cs"

fun loadTodos :: "env \<Rightarrow> (string \<rightharpoonup> string) \<Rightarrow> string \<Rightarrow> string list \<Rightarrow> Todo list" where
  "loadTodos E fs dirPath [] = []"
| "loadTodos E fs dirPath (name # names) =
     (if Ext name \<noteq> ''.ics'' then loadTodos E fs dirPath names
      else (case fs (filepathJoin E dirPath name) of
              None \<Rightarrow> loadTodos E fs dirPath names
            | Some data \<Rightarrow>
                (case ParseCalendar E data of
                   None \<Rightarrow> loadTodos E fs dirPath names
                 | Some cal \<Rightarrow> todosOf E (Components cal) @ loadTodos E fs dirPath names)))"

section \<open>The menu order\<close>

text \<open>The comparison that \<open>createMenu\<close> hands to \<open>sort.Slice\<close>.\<close>

definition menuLess :: "Todo \<Rightarrow> Todo \<Rightarrow> bool" where
  "menuLess a b =
     (if \<not> IsZero (DueDate a) \<and> IsZero (DueDate b) then True
      else if IsZero (DueDate a) \<and> \<not> IsZero (DueDate b) then False
      else if \<not> IsZero (DueDate a) \<and> \<not> IsZero (DueDate b)
           then Before (DueDate a) (DueDate b)
      else if Priority a \<noteq> Priority b then
        (if Priority a = 0 then False
         else if Priority b = 0 then True
         else Priority a < Priority b)
      else After (Created a) (Created b))"

text \<open>
  \<open>sort.Slice\<close> is not stable: all that is known of its result is that it is a rearrangement
  in which no element is less than one before it.
\<close>

definition sortedBy :: "('a \<Rightarrow> 'a \<Rightarrow> bool) \<Rightarrow> 'a list \<Rightarrow> bool" where
  "sortedBy lt xs = sorted_wrt (\<lambda>x y. \<not> lt y x) xs"

section \<open>Sample inputs\<close>

text \<open>
  A concrete environment (local zone UTC, a clock that advances by a minute at each reading)
  and a store with one task, used to run the definitions on an explicit input. \<open>scanClock\<close>
  stands for \<open>fmt.Sscanf\<close> on texts of two digits, a colon and two digits, the only ones it
  is run on here; \<open>fmt.Sscanf\<close> accepts more (\<open>9:5\<close>, a sign, text after the number), and
  the properties are proved for every scanner. \<open>FromText\<close> is the identity, as the library's
  is on a text without a backslash.
\<close>

definition scanClock :: "string \<Rightarrow> string \<Rightarrow> (int \<times> int) option" where
  "scanClock s f =
     (if f = ''%d:%d'' \<and> length s = 5 \<and> s ! 2 = CHR '':''
      then (case (fieldVal (take 2 s), fieldVal (drop 3 s)) of
              (Some h, Some m) \<Rightarrow> Some (h, m) | _ \<Rightarrow> None)
      else None)"

fun showComponent :: "Component \<Rightarrow> string" where
  "showComponent (VTodo props) =
     ''BEGIN:VTODO;'' @ concat (map (\<lambda>(k, v). k @ '':'' @ v @ '';'') props) @ ''END:VTODO;''"
| "showComponent (Other x) = x"

definition env0 :: env where
  "env0 = \<lparr>Local = UTC, clock = (\<lambda>n. zeroTime\<lparr>cYear := 2024, cMinute := int n\<rparr>),
           Sscanf = scanClock, todoPtr = ''todos'',
           filepathJoin = (\<lambda>d f. d @ ''/'' @ f), UnixNanoText = (\<lambda>t. ''17''),
           LoadLocation = (\<lambda>name. if name = ''UTC'' then Some UTC else None),
           ParseCalendar = (\<lambda>text. None),
           SerializeTo = (\<lambda>cal. Some (concat (map showComponent (Components cal)))),
           NewCalendar = \<lparr>CalendarProperties = [(''VERSION'', ''2.0'')], Components = []\<rparr>,
           FromText = (\<lambda>v. v)\<rparr>"

definition todo0 :: Todo where
  "todo0 = \<lparr>UID = ''a1'', Summary = ''Buy milk'', Description = [], Categories = [''home''],
            Status = ''NEEDS-ACTION'', Created = zeroTime\<lparr>cYear := 2024\<rparr>,
            LastMod = zeroTime\<lparr>cYear := 2024\<rparr>, DueDate = zeroTime\<lparr>cYear := 2025\<rparr>,
            Priority = 3, StartDate = zeroTime, Modified = False\<rparr>"

definition world0 :: "reply list \<Rightarrow> world" where
  "world0 rs = \<lparr>heap = (\<lambda>r. todo0), Todos = [0], files = [''todos/a1.ics'' \<mapsto> ''x''],
               locked = [], script = rs, ticks = 0\<rparr>"

section \<open>Properties of the edit controller\<close>

lemma HasPrefix_append: "HasPrefix s p \<longleftrightarrow> (\<exists>t. s = p @ t)"
  unfolding HasPrefix_def
  by (metis append_eq_conv_conj append_take_drop_id)

lemma switch_Categories:
  assumes "HasPrefix out ''Categories''"
  shows "editSwitch E r out s = continue (editCategories r s)"
proof -
  obtain t where "out = ''Categories'' @ t" using assms by (auto simp: HasPrefix_append)
  then show ?thesis by (simp add: editSwitch_def HasPrefix_def)
qed

text \<open>
  C10. In the Categories sub-editor, choosing \<open><Enter new category>\<close> and then cancelling the
  free-text prompt is not treated as a cancel: the error of the nested \<open>display\<close> is dropped,
  so the task's categories become empty and the task is marked modified, exactly as when an
  empty entry is submitted.
\<close>

theorem cancelled_new_category_clears:
  assumes "script s = Answer a # Escape # rest"
    and "TrimRight a [CHR 0x0A] = ''<Enter new category>''"
    and "HasPrefix out ''Categories''"
  shows "\<exists>s'. editSwitch E r out s = Some (Continue, s')
           \<and> Categories (heap s' r) = [] \<and> Modified (heap s' r)
           \<and> editSwitch E r out (s\<lparr>script := Answer a # Answer [] # rest\<rparr>)
               = Some (Continue, s')"
  using assms
  by (simp add: switch_Categories continue_def editCategories_def display_def setTodo_def
      trimCategories_def TrimSpace_empty TrimRight_def)

theorem cancelled_new_category_clears_witness:
  "script (world0 [Answer ''<Enter new category>'', Escape])
     = Answer ''<Enter new category>'' # Escape # []
   \<and> TrimRight ''<Enter new category>'' [CHR 0x0A] = ''<Enter new category>''
   \<and> HasPrefix ''Categories (comma separated): home'' ''Categories''
   \<and> (\<exists>s'. editSwitch env0 0 ''Categories (comma separated): home''
               (world0 [Answer ''<Enter new category>'', Escape]) = Some (Continue, s')
           \<and> Categories (heap s' 0) = [] \<and> Modified (heap s' 0)
           \<and> editSwitch env0 0 ''Categories (comma separated): home''
               ((world0 [Answer ''<Enter new category>'', Escape])
                  \<lparr>script := Answer ''<Enter new category>'' # Answer [] # []\<rparr>)
               = Some (Continue, s'))"
proof -
  have h1: "script (world0 [Answer ''<Enter new category>'', Escape])
     = Answer ''<Enter new category>'' # Escape # []"
    by (simp add: world0_def)
  have h2: "TrimRight ''<Enter new category>'' [CHR 0x0A] = ''<Enter new category>''"
    by (simp add: TrimRight_def)
  have h3: "HasPrefix ''Categories (comma separated): home'' ''Categories''"
    by (simp add: HasPrefix_def)
  show ?thesis
    using h1 h2 h3 cancelled_new_category_clears [OF h1 h2 h3, of env0 0] by blast
qed











lemma fold_max_ge: "a \<le> fold max rs (a::nat)"
  by (induction rs arbitrary: a) (auto intro: order_trans [OF max.cobounded2])

lemma fold_max_mem: "x \<in> set rs \<Longrightarrow> x \<le> fold max rs (a::nat)"
proof (induction rs arbitrary: a)
  case Nil
  then show ?case by simp
next
  case (Cons y ys)
  show ?case
  proof (cases "x = y")
    case True
    have "y \<le> max y a" by simp
    also have "\<dots> \<le> fold max ys (max y a)" by (rule fold_max_ge)
    finally show ?thesis using True by simp
  next
    case False
    with Cons show ?thesis by simp
  qed
qed

lemma newRef_fresh: "newRef rs \<notin> set rs"
  using fold_max_mem [of "newRef rs" rs 0] by (auto simp: newRef_def)

definition agree :: "nat list \<Rightarrow> world \<Rightarrow> world \<Rightarrow> bool" where
  "agree rs s t =
     (files t = files s \<and> locked t = locked s \<and> list_all (\<lambda>r. heap t r = heap s r) rs)"

lemma saveOne_agree:
  assumes "agree rs s t" "r \<in> set rs"
  shows "fst (saveOne E d r t) = fst (saveOne E d r s)
         \<and> agree rs (snd (saveOne E d r s)) (snd (saveOne E d r t))"
  using assms
  by (auto simp: agree_def saveOne_def Let_def setTodo_def list_all_iff split: option.splits)

lemma saveLoop_agree:
  "agree rs s t \<Longrightarrow> set qs \<subseteq> set rs \<Longrightarrow>
     fst (saveLoop E d qs t) = fst (saveLoop E d qs s)
     \<and> agree rs (snd (saveLoop E d qs s)) (snd (saveLoop E d qs t))"
proof (induction qs arbitrary: s t)
  case Nil
  then show ?case by simp
next
  case (Cons q qs)
  then have q: "q \<in> set rs" and qs: "set qs \<subseteq> set rs" by auto
  from Cons.prems(1) q have hq: "heap t q = heap s q" by (auto simp: agree_def list_all_iff)
  show ?case
  proof (cases "Modified (heap s q)")
    case False
    with hq Cons.IH [OF Cons.prems(1) qs] show ?thesis by simp
  next
    case True
    note one = saveOne_agree [OF Cons.prems(1) q, of E d]
    show ?thesis
    proof (cases "fst (saveOne E d q s)")
      case False
      with one True hq show ?thesis
        by (cases "saveOne E d q s"; cases "saveOne E d q t") auto
    next
      case ok: True
      obtain s1 where s1: "saveOne E d q s = (True, s1)" using ok by (cases "saveOne E d q s") auto
      obtain t1 where t1: "saveOne E d q t = (True, t1)" using ok one by (cases "saveOne E d q t") auto
      from one s1 t1 have "agree rs s1 t1" by simp
      from Cons.IH [OF this qs] True hq s1 t1 show ?thesis by simp
    qed
  qed
qed


lemma removeFirstUID_subset: "set (removeFirstUID h u ts) \<subseteq> set ts"
  by (induction ts) auto

lemma display_frame:
  "display s = Some (x, s1) \<Longrightarrow> Todos s1 = Todos s \<and> heap s1 = heap s \<and> locked s1 = locked s"
  by (auto simp: display_def split: list.splits reply.splits)

lemma updateStartDate_frame:
  "Todos (updateStartDate E r d s) = Todos s
   \<and> (\<forall>q. q \<noteq> r \<longrightarrow> heap (updateStartDate E r d s) q = heap s q)"
  by (simp add: updateStartDate_def setTodo_def Let_def split: option.splits)

lemma updateStartTime_frame:
  "Todos (updateStartTime E r t s) = Todos s
   \<and> (\<forall>q. q \<noteq> r \<longrightarrow> heap (updateStartTime E r t s) q = heap s q)"
  by (simp add: updateStartTime_def setTodo_def Now_def Let_def split: option.splits prod.splits)

lemma deleteTodo_frame:
  "set (Todos (snd (deleteTodo E r s))) \<subseteq> set (Todos s) \<and> heap (snd (deleteTodo E r s)) = heap s"
  using removeFirstUID_subset [of "heap s" "UID (heap s r)" "Todos s"]
  by (auto simp: deleteTodo_def osRemove_def Let_def split: option.splits)

lemma editSwitch_frame:
  assumes "editSwitch E r out s = Some (x, s')"
  shows "set (Todos s') \<subseteq> set (Todos s) \<and> (\<forall>q. q \<noteq> r \<longrightarrow> heap s' q = heap s q)"
proof -
  have d: "\<And>a b c. display a = Some (b, c) \<Longrightarrow> Todos c = Todos a \<and> heap c = heap a"
    using display_frame by simp
  have del: "\<And>b c. deleteTodo E r b = c \<Longrightarrow>
      set (Todos (snd c)) \<subseteq> set (Todos b) \<and> heap (snd c) = heap b"
    using deleteTodo_frame by blast
  show ?thesis
    using assms unfolding editSwitch_def continue_def
    by (auto simp: editTitle_def editPriority_def editCategories_def editDueDate_def
          editStartDate_def editStartTime_def editDescription_def editDelete_def setStatus_def
          setTodo_def Now_def Let_def updateStartDate_frame updateStartTime_frame
          bind_eq_Some_conv
        split: if_splits prod.splits option.splits bool.splits
        dest!: d del)
qed

lemma editLoop_frame:
  "editLoop E originalTodo isNew r s = Some (x, s') \<Longrightarrow>
     set (Todos s') \<subseteq> set (Todos s) \<and> (\<forall>q. q \<noteq> r \<longrightarrow> heap s' q = heap s q)"
proof (induction E originalTodo isNew r s rule: editLoop.induct)
  case (1 E originalTodo isNew r s)
  from "1.prems" obtain out e s1 where d: "display s = Some ((out, e), s1)"
    by (subst (asm) editLoop.simps) (auto split: option.splits)
  have f1: "Todos s1 = Todos s \<and> heap s1 = heap s" using display_frame [OF d] by simp
  show ?case
  proof (cases e)
    case True
    with "1.prems" d f1 show ?thesis
      by (subst (asm) editLoop.simps) (auto simp: setTodo_def split: if_splits)
  next
    case False
    from "1.prems" d False
    have run: "(case editSwitch E r out s1 of
                  None \<Rightarrow> None
                | Some (Stop x, s2) \<Rightarrow> Some (x, s2)
                | Some (Continue, s2) \<Rightarrow> editLoop E originalTodo isNew r s2)
               = Some (x, s')"
      by (subst (asm) editLoop.simps) simp
    then obtain st s2 where sw: "editSwitch E r out s1 = Some (st, s2)"
      by (cases "editSwitch E r out s1") auto
    note f2 = editSwitch_frame [OF sw]
    show ?thesis
    proof (cases st)
      case Continue
      with run sw have rec: "editLoop E originalTodo isNew r s2 = Some (x, s')" by simp
      from "1.IH" [OF d refl refl False _ refl refl rec] sw Continue
      have "set (Todos s') \<subseteq> set (Todos s2) \<and> (\<forall>q. q \<noteq> r \<longrightarrow> heap s' q = heap s2 q)"
        by simp
      with f1 f2 show ?thesis by auto
    next
      case (Stop y)
      with run sw have "s' = s2" by simp
      with f1 f2 show ?thesis by auto
    qed
  qed
qed


lemma newTodo_frame:
  assumes "newTodo E s = (r, s4)"
  shows "r = newRef (Todos s) \<and> Todos s4 = Todos s \<and> files s4 = files s \<and> locked s4 = locked s
         \<and> script s4 = script s \<and> (\<forall>q. q \<noteq> r \<longrightarrow> heap s4 q = heap s q)"
  using assms by (auto simp: newTodo_def generateUID_def Now_def setTodo_def Let_def)

lemma addItem_cases:
  assumes "addItem E s = Some s'" and n: "newTodo E s = (r, s4)"
  obtains (quit) summary e s5 where "display s4 = Some ((summary, e), s5)" "e \<or> summary = []"
      "s' = setTodo r ((heap s5 r)\<lparr>Summary := summary\<rparr>) s5"
  | (drop) summary s5 x s7 where "display s4 = Some ((summary, False), s5)"
      "editItem E r (setTodo r ((heap s5 r)\<lparr>Summary := summary\<rparr>) s5) = Some (x, s7)"
      "s' = s7"
  | (add) summary s5 x s7 where "display s4 = Some ((summary, False), s5)"
      "editItem E r (setTodo r ((heap s5 r)\<lparr>Summary := summary\<rparr>) s5) = Some (x, s7)"
      "Summary (heap s7 r) \<noteq> []" "Modified (heap s7 r)"
      "s' = (setTodo r ((heap s7 r)\<lparr>LastMod := clock E (ticks s7)\<rparr>) (s7\<lparr>ticks := Suc (ticks s7)\<rparr>))
              \<lparr>Todos := Todos s7 @ [r]\<rparr>"
proof -
  from assms obtain summary e s5 where d: "display s4 = Some ((summary, e), s5)"
    by (auto simp: addItem_def bind_eq_Some_conv)
  let ?s6 = "setTodo r ((heap s5 r)\<lparr>Summary := summary\<rparr>) s5"
  show thesis
  proof (cases "e \<or> summary = []")
    case True
    with assms d have "s' = ?s6" by (auto simp: addItem_def Let_def split: if_splits)
    with d True quit show ?thesis by auto
  next
    case False
    with assms d obtain x s7 where ed: "editItem E r ?s6 = Some (x, s7)"
      by (auto simp: addItem_def Let_def bind_eq_Some_conv)
    show ?thesis
    proof (cases "Summary (heap s7 r) \<noteq> [] \<and> Modified (heap s7 r)")
      case True
      with assms d False ed
      have "s' = (setTodo r ((heap s7 r)\<lparr>LastMod := clock E (ticks s7)\<rparr>) (s7\<lparr>ticks := Suc (ticks s7)\<rparr>))
              \<lparr>Todos := Todos s7 @ [r]\<rparr>"
        by (simp add: addItem_def Let_def Now_def setTodo_def)
      with d False ed True add show ?thesis by auto
    next
      case nadd: False
      with assms d False ed have "s' = s7" by (auto simp: addItem_def Let_def split: if_splits)
      with d False ed drop show ?thesis by auto
    qed
  qed
qed


text \<open>
  C9. \<open>addItem\<close> never appends a task with an empty summary: every address in the list
  afterwards was there before or belongs to a task with a summary. When the title prompt is
  cancelled or answered with the empty string nothing is appended, the listed tasks and the
  files are untouched, and a save that follows does exactly what it would have done before,
  so it creates no file for the abandoned task.
\<close>

theorem addItem_keeps_empty_titles_out:
  "(\<forall>s'. addItem E s = Some s' \<longrightarrow>
      (\<forall>r \<in> set (Todos s'). r \<in> set (Todos s) \<or> Summary (heap s' r) \<noteq> []))
   \<and> (script s = Escape # rest \<or> (script s = Answer a # rest \<and> TrimRight a [CHR 0x0A] = []) \<longrightarrow>
        (\<exists>s'. addItem E s = Some s' \<and> Todos s' = Todos s \<and> files s' = files s
            \<and> (\<forall>r \<in> set (Todos s). heap s' r = heap s r)
            \<and> fst (saveTodos E dirPath s') = fst (saveTodos E dirPath s)
            \<and> files (snd (saveTodos E dirPath s')) = files (snd (saveTodos E dirPath s))))"
proof -
  obtain r s4 where n: "newTodo E s = (r, s4)" by (cases "newTodo E s")
  note fr = newTodo_frame [OF n]
  have part1: "\<forall>q \<in> set (Todos s'). q \<in> set (Todos s) \<or> Summary (heap s' q) \<noteq> []"
    if run: "addItem E s = Some s'" for s'
    using run n
  proof (cases rule: addItem_cases)
    case (quit summary e s5)
    with display_frame [OF quit(1)] fr show ?thesis by (simp add: setTodo_def)
  next
    case (drop summary s5 x s7)
    from editLoop_frame [OF drop(2) [unfolded editItem_def]] display_frame [OF drop(1)] fr drop(3)
    show ?thesis by (auto simp: setTodo_def)
  next
    case (add summary s5 x s7)
    from editLoop_frame [OF add(2) [unfolded editItem_def]] display_frame [OF add(1)] fr
    have sub: "set (Todos s7) \<subseteq> set (Todos s)" by (auto simp: setTodo_def)
    from add(3,5) have "Summary (heap s' r) \<noteq> []" by (simp add: setTodo_def)
    with sub add(5) show ?thesis by (auto simp: setTodo_def)
  qed
  have part2: "\<exists>s'. addItem E s = Some s' \<and> Todos s' = Todos s \<and> files s' = files s
            \<and> (\<forall>r \<in> set (Todos s). heap s' r = heap s r)
            \<and> fst (saveTodos E dirPath s') = fst (saveTodos E dirPath s)
            \<and> files (snd (saveTodos E dirPath s')) = files (snd (saveTodos E dirPath s))"
    if c: "script s = Escape # rest \<or> (script s = Answer a # rest \<and> TrimRight a [CHR 0x0A] = [])"
  proof -
    from c fr have "display s4 = Some (([], True), s4\<lparr>script := rest\<rparr>)
        \<or> display s4 = Some (([], False), s4\<lparr>script := rest\<rparr>)"
      by (auto simp: display_def)
    then obtain e where d: "display s4 = Some (([], e), s4\<lparr>script := rest\<rparr>)"
      by blast
    define s' where "s' = setTodo r ((heap s4 r)\<lparr>Summary := []\<rparr>) (s4\<lparr>script := rest\<rparr>)"
    have run: "addItem E s = Some s'"
      by (simp add: addItem_def n d s'_def setTodo_def Let_def)
    have t: "Todos s' = Todos s" and f: "files s' = files s" and l: "locked s' = locked s"
      and h: "\<forall>q. q \<noteq> r \<longrightarrow> heap s' q = heap s q"
      using fr by (simp_all add: s'_def setTodo_def)
    have fresh: "r \<notin> set (Todos s)" using fr newRef_fresh [of "Todos s"] by simp
    have "agree (Todos s) s s'"
      using f l h fresh by (auto simp: agree_def list_all_iff)
    from saveLoop_agree [OF this subset_refl, of E dirPath] t
    have "fst (saveTodos E dirPath s') = fst (saveTodos E dirPath s)
            \<and> files (snd (saveTodos E dirPath s')) = files (snd (saveTodos E dirPath s))"
      by (simp add: saveTodos_def agree_def)
    with run t f h fresh show ?thesis by (intro exI [of _ s']) auto
  qed
  from part1 part2 show ?thesis by blast
qed

theorem addItem_keeps_empty_titles_out_witness:
  "(\<exists>s'. addItem env0 (world0 [Answer ''Tea'', Answer ''Save item'']) = Some s'
        \<and> Todos s' = [0, 1] \<and> Summary (heap s' 1) \<noteq> [])
   \<and> script (world0 [Escape]) = Escape # []
   \<and> (\<exists>s'. addItem env0 (world0 [Escape]) = Some s' \<and> Todos s' = Todos (world0 [Escape])
          \<and> files s' = files (world0 [Escape])
          \<and> (\<forall>r \<in> set (Todos (world0 [Escape])). heap s' r = heap (world0 [Escape]) r)
          \<and> fst (saveTodos env0 ''todos'' s') = fst (saveTodos env0 ''todos'' (world0 [Escape]))
          \<and> files (snd (saveTodos env0 ''todos'' s'))
              = files (snd (saveTodos env0 ''todos'' (world0 [Escape]))))"
proof -
  let ?w = "world0 [Answer ''Tea'', Answer ''Save item'']"
  have "\<exists>s'. addItem env0 ?w = Some s' \<and> Todos s' = [0, 1]"
    by (simp add: addItem_def newTodo_def generateUID_def Now_def newRef_def world0_def
        display_def TrimRight_def setTodo_def editItem_def editSwitch_def Let_def)
  then obtain s' where run: "addItem env0 ?w = Some s'" and t: "Todos s' = [0, 1]" by blast
  have "Todos ?w = [0]" by (simp add: world0_def)
  with addItem_keeps_empty_titles_out [of env0 ?w "[]" "[]" "''todos''"] run t
  have "Summary (heap s' 1) \<noteq> []" by auto
  with run t have a: "\<exists>s'. addItem env0 ?w = Some s' \<and> Todos s' = [0, 1]
      \<and> Summary (heap s' 1) \<noteq> []" by blast
  have b: "script (world0 [Escape]) = Escape # []" by (simp add: world0_def)
  from a b addItem_keeps_empty_titles_out [of env0 "world0 [Escape]" "[]" "[]" "''todos''"]
  show ?thesis by blast
qed

section \<open>Properties of the task store\<close>

text \<open>The file of a task: \<open>filepath.Join(dirPath, todo.UID + ".ics")\<close>.\<close>

definition taskPath :: "env \<Rightarrow> string \<Rightarrow> Todo \<Rightarrow> string" where
  "taskPath E dirPath todo = filepathJoin E dirPath (UID todo @ ''.ics'')"

text \<open>A store whose only task has no file in the directory, and the answer \<open>y\<close> to come.\<close>

definition worldNoFile :: world where
  "worldNoFile = \<lparr>heap = (\<lambda>r. todo0\<lparr>Status := ''COMPLETED''\<rparr>), Todos = [0], files = Map.empty,
                  locked = [], script = [Answer ''y''], ticks = 0\<rparr>"

text \<open>
  C2. The claim is that a deletion whose file removal fails leaves the collection as it
  was. \<open>deleteTodo\<close> cuts the entry out of the list before it calls \<open>os.Remove\<close>, so on this
  store the removal fails, \<open>deleteTodo\<close> reports failure, and the entry is gone all the same;
  the edit loop then goes on with a task that is no longer in the store.
\<close>

theorem deleteTodo_failure_drops_entry:
  "Todos worldNoFile = [0]
   \<and> deleteTodo env0 0 worldNoFile = (False, worldNoFile\<lparr>Todos := []\<rparr>)
   \<and> editSwitch env0 0 ''Delete item'' worldNoFile
       = Some (Continue, worldNoFile\<lparr>Todos := [], script := []\<rparr>)"
  by (simp add: worldNoFile_def deleteTodo_def osRemove_def env0_def todo0_def editSwitch_def
      HasPrefix_def editDelete_def display_def TrimRight_def ToLower_def lowerChar_def)

text \<open>
  The bulk deletion of \<open>viewCompletedItems\<close> puts such a task back (\<open>If deletion failed, keep
  the todo in the list\<close>).
\<close>

lemma deleteAllCompleted_keeps_failed_entry: "Todos (deleteAllCompleted env0 worldNoFile) = [0]"
  by (simp add: worldNoFile_def deleteAllCompleted_def deleteTodo_def osRemove_def env0_def todo0_def)

lemma saveOne_frame:
  assumes "saveOne E d q s = (ok, s1)"
  shows "Todos s1 = Todos s \<and> locked s1 = locked s
     \<and> (\<forall>p. p \<noteq> taskPath E d (heap s q) \<longrightarrow> files s1 p = files s p)
     \<and> (\<forall>r. r \<noteq> q \<longrightarrow> heap s1 r = heap s r)
     \<and> (if ok then heap s1 q = (heap s q)\<lparr>Modified := False\<rparr> else heap s1 q = heap s q)"
  using assms
  by (auto simp: saveOne_def taskPath_def Let_def setTodo_def split: option.splits if_splits)

lemma saveLoop_frame:
  "saveLoop E d qs s = (ok, s') \<Longrightarrow>
     Todos s' = Todos s
     \<and> (\<forall>r. heap s' r = heap s r \<or> (Modified (heap s r) \<and> r \<in> set qs \<and> heap s' r = (heap s r)\<lparr>Modified := False\<rparr>))
     \<and> (\<forall>p. files s' p \<noteq> files s p \<longrightarrow> (\<exists>r \<in> set qs. Modified (heap s r) \<and> taskPath E d (heap s r) = p))
     \<and> (ok \<longrightarrow> (\<forall>r \<in> set qs. \<not> Modified (heap s' r)))"
proof (induction qs arbitrary: s)
  case Nil
  then show ?case by simp
next
  case (Cons q qs)
  show ?case
  proof (cases "Modified (heap s q)")
    case False
    with Cons.prems have "saveLoop E d qs s = (ok, s')" by simp
    note ih = Cons.IH [OF this]
    from ih have "heap s' q = heap s q
        \<or> (Modified (heap s q) \<and> q \<in> set qs \<and> heap s' q = (heap s q)\<lparr>Modified := False\<rparr>)"
      by blast
    with False have "\<not> Modified (heap s' q)" by auto
    with ih show ?thesis by auto
  next
    case True
    obtain ok1 s1 where one: "saveOne E d q s = (ok1, s1)" by (cases "saveOne E d q s")
    note f1 = saveOne_frame [OF one]
    show ?thesis
    proof (cases ok1)
      case False
      with Cons.prems True one have "s' = s1" "\<not> ok" by auto
      with f1 False True show ?thesis by auto
    next
      case ok1: True
      with Cons.prems True one have rest: "saveLoop E d qs s1 = (ok, s')" by simp
      note ih = Cons.IH [OF rest]
      have h1: "\<And>r. heap s1 r = heap s r \<or> (r = q \<and> heap s1 r = (heap s r)\<lparr>Modified := False\<rparr>)"
        using f1 ok1 by auto
      have t: "Todos s' = Todos s" using ih f1 by simp
      have hp: "\<forall>r. heap s' r = heap s r \<or> (Modified (heap s r) \<and> r \<in> set (q # qs) \<and> heap s' r = (heap s r)\<lparr>Modified := False\<rparr>)"
      proof
        fix r
        from ih have "heap s' r = heap s1 r \<or> (Modified (heap s1 r) \<and> r \<in> set qs \<and> heap s' r = (heap s1 r)\<lparr>Modified := False\<rparr>)" by blast
        with h1 [of r] True show "heap s' r = heap s r \<or> (Modified (heap s r) \<and> r \<in> set (q # qs) \<and> heap s' r = (heap s r)\<lparr>Modified := False\<rparr>)"
          by (cases "r = q") auto
      qed
      have fl: "\<forall>p. files s' p \<noteq> files s p \<longrightarrow> (\<exists>r \<in> set (q # qs). Modified (heap s r) \<and> taskPath E d (heap s r) = p)"
      proof (intro allI impI)
        fix p assume ne: "files s' p \<noteq> files s p"
        show "\<exists>r \<in> set (q # qs). Modified (heap s r) \<and> taskPath E d (heap s r) = p"
        proof (cases "files s' p = files s1 p")
          case True
          with ne f1 have "p = taskPath E d (heap s q)" by auto
          with \<open>Modified (heap s q)\<close> show ?thesis by auto
        next
          case False
          with ih obtain r where r: "r \<in> set qs" "Modified (heap s1 r)" "taskPath E d (heap s1 r) = p"
            by blast
          with h1 [of r] have "Modified (heap s r) \<and> taskPath E d (heap s r) = p"
            by (auto simp: taskPath_def)
          with r show ?thesis by auto
        qed
      qed
      have fin: "ok \<longrightarrow> (\<forall>r \<in> set (q # qs). \<not> Modified (heap s' r))"
      proof
        assume ok
        with ih have a: "\<forall>r \<in> set qs. \<not> Modified (heap s' r)" by simp
        from ih have "heap s' q = heap s1 q \<or> heap s' q = (heap s1 q)\<lparr>Modified := False\<rparr>" by blast
        with f1 ok1 have "\<not> Modified (heap s' q)" by auto
        with a show "\<forall>r \<in> set (q # qs). \<not> Modified (heap s' r)" by simp
      qed
      from t hp fl fin show ?thesis by blast
    qed
  qed
qed

text \<open>
  C5. \<open>saveTodos\<close> only processes the tasks whose modified flag is set. A task whose flag is
  not set is left as it is; a file is left as it is (neither rewritten nor removed) unless
  it is the file of a modified task of the list, so the file of an unmodified task is
  untouched as long as no modified task has the same UID; and when \<open>saveTodos\<close> returns no
  error, no task of the list is modified any more.
\<close>

theorem saveTodos_skips_unmodified:
  assumes "saveTodos E dirPath s = (ok, s')"
  shows "(\<forall>t \<in> set (Todos s). \<not> Modified (heap s t) \<longrightarrow> heap s' t = heap s t)
       \<and> (\<forall>p. (\<forall>r \<in> set (Todos s). Modified (heap s r) \<longrightarrow> taskPath E dirPath (heap s r) \<noteq> p)
              \<longrightarrow> files s' p = files s p)
       \<and> (ok \<longrightarrow> (\<forall>r \<in> set (Todos s). \<not> Modified (heap s' r)))
       \<and> Todos s' = Todos s"
  using saveLoop_frame [OF assms [unfolded saveTodos_def]] by blast

definition world2 :: world where
  "world2 = \<lparr>heap = (\<lambda>r. if r = 0 then todo0
                         else todo0\<lparr>UID := ''b2'', Summary := ''Tea'', Modified := True\<rparr>),
             Todos = [0, 1], files = [''todos/a1.ics'' \<mapsto> ''x''], locked = [], script = [],
             ticks = 0\<rparr>"

theorem saveTodos_skips_unmodified_witness:
  "\<exists>s'. saveTodos env0 ''todos'' world2 = (True, s')
      \<and> heap s' 0 = heap world2 0
      \<and> files s' ''todos/a1.ics'' = files world2 ''todos/a1.ics''
      \<and> \<not> Modified (heap s' 0) \<and> \<not> Modified (heap s' 1)
      \<and> Todos s' = Todos world2"
proof -
  have "\<exists>s'. saveTodos env0 ''todos'' world2 = (True, s')"
    by (simp add: saveTodos_def world2_def saveOne_def env0_def todo0_def Let_def)
  then obtain s' where run: "saveTodos env0 ''todos'' world2 = (True, s')" ..
  have a: "\<not> Modified (heap world2 0)" "Modified (heap world2 1)" "Todos world2 = [0, 1]"
    "taskPath env0 ''todos'' (heap world2 1) \<noteq> ''todos/a1.ics''"
    by (simp_all add: world2_def todo0_def taskPath_def env0_def)
  from saveTodos_skips_unmodified [OF run] a run show ?thesis
    by (intro exI [of _ s']) auto
qed

section \<open>Edits of single fields\<close>


lemma parseDate_nonempty: "parseDate d = Some date \<Longrightarrow> d \<noteq> []"
  by (auto simp: parseDate_def split: if_splits)


text \<open>A task that starts on 2024-10-02 at 01:00:30.\<close>

definition worldStart :: world where
  "worldStart = \<lparr>heap = (\<lambda>r. todo0\<lparr>StartDate :=
                     \<lparr>cYear = 2024, cMonth = 10, cDay = 2, cHour = 1, cMinute = 0, cSecond = 30,
                      cNsec = 0\<rparr>\<rparr>),
                 Todos = [0], files = Map.empty, locked = [], script = [], ticks = 0\<rparr>"






text \<open>
  The sub-prompts on an answer \<open>v\<close> that is not a cancel. Title, Description and Categories
  take the answer and mark the task modified. Due date and Start date take a well-formed
  date and mark the task modified; a malformed date leaves the task as it is; the empty
  answer clears the date. Start time takes a time that scans to an hour below 24 and a minute
  below 60 and marks the task modified; the empty answer and an answer that does not scan to
  such a time leave the task as it is.
\<close>

lemma sub_prompt_results:
  assumes "script s = Answer a # rest" and "v = TrimRight a [CHR 0x0A]"
  shows
   "editTitle r s
      = Some (setTodo r ((heap s r)\<lparr>Summary := v, Modified := True\<rparr>) (s\<lparr>script := rest\<rparr>))
    \<and> editDescription r s
      = Some (setTodo r ((heap s r)\<lparr>Description := v, Modified := True\<rparr>) (s\<lparr>script := rest\<rparr>))
    \<and> (v \<noteq> ''<Enter new category>'' \<longrightarrow>
         editCategories r s
           = Some (setTodo r ((heap s r)\<lparr>Categories := trimCategories (Split v CHR '',''),
                                        Modified := True\<rparr>) (s\<lparr>script := rest\<rparr>)))
    \<and> (\<forall>b rest'. v = ''<Enter new category>'' \<and> rest = Answer b # rest' \<longrightarrow>
         editCategories r s
           = Some (setTodo r
                     ((heap s r)\<lparr>Categories :=
                                    trimCategories (Split (TrimRight b [CHR 0x0A]) CHR '',''),
                                  Modified := True\<rparr>) (s\<lparr>script := rest'\<rparr>)))
    \<and> (\<forall>date. parseDate v = Some date \<longrightarrow>
         editDueDate E r s
           = Some (setTodo r ((heap s r)\<lparr>DueDate := fromWall (Local E) date, Modified := True\<rparr>)
                     (s\<lparr>script := rest\<rparr>))
         \<and> (\<exists>s'. editStartDate E r s = Some s' \<and> Modified (heap s' r)
               \<and> StartDate (heap s' r)
                   = (if IsZero (StartDate (heap s r)) then fromWall (Local E) date
                      else Date E (Year E (fromWall (Local E) date))
                             (Month E (fromWall (Local E) date)) (Day E (fromWall (Local E) date))
                             (Hour E (StartDate (heap s r))) (Minute E (StartDate (heap s r))) 0 0)))
    \<and> (v \<noteq> [] \<and> parseDate v = None \<longrightarrow>
         (\<forall>s'. editDueDate E r s = Some s' \<longrightarrow> heap s' = heap s)
         \<and> editStartDate E r s = Some (s\<lparr>script := rest\<rparr>))
    \<and> (v = [] \<longrightarrow>
         (\<exists>s'. editDueDate E r s = Some s' \<and> DueDate (heap s' r) = zeroTime)
         \<and> (\<exists>s'. editStartDate E r s = Some s' \<and> StartDate (heap s' r) = zeroTime)
         \<and> editStartTime E r s = Some (s\<lparr>script := rest\<rparr>))
    \<and> (\<forall>h m. v \<noteq> []
           \<and> (if Contains v '':'' then Sscanf E v ''%d:%d'' else Sscanf E v ''%02d%02d'') = Some (h, m)
           \<and> 0 \<le> h \<and> h < 24 \<and> 0 \<le> m \<and> m < 60 \<longrightarrow>
         (\<exists>s'. editStartTime E r s = Some s' \<and> Modified (heap s' r)
             \<and> StartDate (heap s' r)
                 = (let base = (if IsZero (StartDate (heap s r)) then clock E (ticks s)
                                else StartDate (heap s r))
                    in Date E (Year E base) (Month E base) (Day E base) h m 0 0)))
    \<and> ((if Contains v '':'' then Sscanf E v ''%d:%d'' else Sscanf E v ''%02d%02d'') = None \<longrightarrow>
         editStartTime E r s = Some (s\<lparr>script := rest\<rparr>))
    \<and> (\<forall>h m. (if Contains v '':'' then Sscanf E v ''%d:%d'' else Sscanf E v ''%02d%02d'') = Some (h, m)
           \<and> \<not> (0 \<le> h \<and> h < 24 \<and> 0 \<le> m \<and> m < 60) \<longrightarrow>
         editStartTime E r s = Some (s\<lparr>script := rest\<rparr>))"
proof -
  have d: "display s = Some ((v, False), s\<lparr>script := rest\<rparr>)"
    using assms by (simp add: display_def)
  have c1: "editTitle r s
      = Some (setTodo r ((heap s r)\<lparr>Summary := v, Modified := True\<rparr>) (s\<lparr>script := rest\<rparr>))"
    by (simp add: editTitle_def d setTodo_def)
  have c2: "editDescription r s
      = Some (setTodo r ((heap s r)\<lparr>Description := v, Modified := True\<rparr>) (s\<lparr>script := rest\<rparr>))"
    by (simp add: editDescription_def d setTodo_def)
  have c3: "v \<noteq> ''<Enter new category>'' \<longrightarrow>
         editCategories r s
           = Some (setTodo r ((heap s r)\<lparr>Categories := trimCategories (Split v CHR '',''),
                                        Modified := True\<rparr>) (s\<lparr>script := rest\<rparr>))"
    by (simp add: editCategories_def d setTodo_def)
  have c3': "\<forall>b rest'. v = ''<Enter new category>'' \<and> rest = Answer b # rest' \<longrightarrow>
         editCategories r s
           = Some (setTodo r
                     ((heap s r)\<lparr>Categories :=
                                    trimCategories (Split (TrimRight b [CHR 0x0A]) CHR '',''),
                                  Modified := True\<rparr>) (s\<lparr>script := rest'\<rparr>))"
  proof (intro allI impI)
    fix b rest'
    assume n: "v = ''<Enter new category>'' \<and> rest = Answer b # rest'"
    then have "display (s\<lparr>script := rest\<rparr>)
        = Some ((TrimRight b [CHR 0x0A], False), s\<lparr>script := rest'\<rparr>)"
      by (simp add: display_def)
    with n d show "editCategories r s
           = Some (setTodo r
                     ((heap s r)\<lparr>Categories :=
                                    trimCategories (Split (TrimRight b [CHR 0x0A]) CHR '',''),
                                  Modified := True\<rparr>) (s\<lparr>script := rest'\<rparr>))"
      by (simp add: editCategories_def setTodo_def)
  qed
  have c4: "\<forall>date. parseDate v = Some date \<longrightarrow>
         editDueDate E r s
           = Some (setTodo r ((heap s r)\<lparr>DueDate := fromWall (Local E) date, Modified := True\<rparr>)
                     (s\<lparr>script := rest\<rparr>))
         \<and> (\<exists>s'. editStartDate E r s = Some s' \<and> Modified (heap s' r)
               \<and> StartDate (heap s' r)
                   = (if IsZero (StartDate (heap s r)) then fromWall (Local E) date
                      else Date E (Year E (fromWall (Local E) date))
                             (Month E (fromWall (Local E) date)) (Day E (fromWall (Local E) date))
                             (Hour E (StartDate (heap s r))) (Minute E (StartDate (heap s r))) 0 0))"
    using parseDate_nonempty [of v]
    by (auto simp: editDueDate_def editStartDate_def updateStartDate_def d setTodo_def
        ParseInLocationDate_def Let_def)
  have c5: "v \<noteq> [] \<and> parseDate v = None \<longrightarrow>
         (\<forall>s'. editDueDate E r s = Some s' \<longrightarrow> heap s' = heap s)
         \<and> editStartDate E r s = Some (s\<lparr>script := rest\<rparr>)"
    by (auto simp: editDueDate_def editStartDate_def updateStartDate_def d
        ParseInLocationDate_def Let_def bind_eq_Some_conv dest!: display_frame)
  have c6: "v = [] \<longrightarrow>
         (\<exists>s'. editDueDate E r s = Some s' \<and> DueDate (heap s' r) = zeroTime)
         \<and> (\<exists>s'. editStartDate E r s = Some s' \<and> StartDate (heap s' r) = zeroTime)
         \<and> editStartTime E r s = Some (s\<lparr>script := rest\<rparr>)"
    by (auto simp: editDueDate_def editStartDate_def editStartTime_def updateStartDate_def
        updateStartTime_def d setTodo_def Let_def)
  have c7: "\<forall>h m. v \<noteq> []
           \<and> (if Contains v '':'' then Sscanf E v ''%d:%d'' else Sscanf E v ''%02d%02d'') = Some (h, m)
           \<and> 0 \<le> h \<and> h < 24 \<and> 0 \<le> m \<and> m < 60 \<longrightarrow>
         (\<exists>s'. editStartTime E r s = Some s' \<and> Modified (heap s' r)
             \<and> StartDate (heap s' r)
                 = (let base = (if IsZero (StartDate (heap s r)) then clock E (ticks s)
                                else StartDate (heap s r))
                    in Date E (Year E base) (Month E base) (Day E base) h m 0 0))"
    by (simp add: editStartTime_def updateStartTime_def d setTodo_def Let_def Now_def)
  have c8: "(if Contains v '':'' then Sscanf E v ''%d:%d'' else Sscanf E v ''%02d%02d'') = None \<longrightarrow>
         editStartTime E r s = Some (s\<lparr>script := rest\<rparr>)"
    by (simp add: editStartTime_def updateStartTime_def d)
  have c9: "\<forall>h m. (if Contains v '':'' then Sscanf E v ''%d:%d'' else Sscanf E v ''%02d%02d'') = Some (h, m)
           \<and> \<not> (0 \<le> h \<and> h < 24 \<and> 0 \<le> m \<and> m < 60) \<longrightarrow>
         editStartTime E r s = Some (s\<lparr>script := rest\<rparr>)"
    by (auto simp: editStartTime_def updateStartTime_def d)
  from c1 c2 c3 c3' c4 c5 c6 c7 c8 c9 show ?thesis by blast
qed

text \<open>
  C1 does not hold of the code where a date is cleared. The task of the sample store has a
  due date and its modified flag is unset: the empty answer to the Due date prompt sets the
  due date to the zero time and leaves the flag unset. The same happens at the Start date
  prompt for a task that has a start. The branch beside it, which stores a well-formed date,
  sets the flag.
\<close>

theorem cleared_date_is_not_marked:
  "DueDate (heap (world0 [Answer []]) 0) \<noteq> zeroTime
   \<and> \<not> Modified (heap (world0 [Answer []]) 0)
   \<and> editSwitch env0 0 ''Due date yyyy-mm-dd: 2025-01-01'' (world0 [Answer []])
       = Some (Continue, setTodo 0 (todo0\<lparr>DueDate := zeroTime, Modified := False\<rparr>) (world0 []))
   \<and> StartDate (heap worldStart 0) \<noteq> zeroTime
   \<and> \<not> Modified (heap worldStart 0)
   \<and> editSwitch env0 0 ''Start date yyyy-mm-dd: 2024-10-02'' (worldStart\<lparr>script := [Answer []]\<rparr>)
       = Some (Continue,
               setTodo 0 (todo0\<lparr>StartDate := zeroTime, Modified := False\<rparr>) worldStart)
   \<and> editSwitch env0 0 ''Due date yyyy-mm-dd: 2025-01-01'' (world0 [Answer ''2025-03-01''])
       = Some (Continue,
               setTodo 0 (todo0\<lparr>DueDate := zeroTime\<lparr>cYear := 2025, cMonth := 3\<rparr>,
                                Modified := True\<rparr>) (world0 []))"
  by (simp add: editSwitch_def continue_def HasPrefix_def editDueDate_def editStartDate_def
      updateStartDate_def display_def world0_def worldStart_def TrimRight_def setTodo_def
      todo0_def zeroTime_def ParseInLocationDate_def parseDate_def fieldVal_def isDigit_def
      digitVal_def digitsVal_def daysIn_def env0_def UTC_def)

section \<open>Properties of the menu order\<close>

text \<open>Two tasks due at the same instant, one of priority 1 and one of priority 5.\<close>

definition taskA :: Todo where
  "taskA = todo0\<lparr>UID := ''a'', Priority := 1\<rparr>"

definition taskB :: Todo where
  "taskB = todo0\<lparr>UID := ''b'', Priority := 5\<rparr>"

text \<open>
  C3. The claim orders two tasks with equal due dates by ascending priority. The comparison
  returns \<open>a.DueDate.Before(b.DueDate)\<close> as soon as both tasks have a due date, so for equal
  due dates it answers no in both directions and never looks at the priority: the list with
  the task of priority 5 before the task of priority 1 counts as sorted.
\<close>

theorem equal_due_dates_ignore_priority:
  "DueDate taskA = DueDate taskB \<and> \<not> IsZero (DueDate taskA)
   \<and> Priority taskA = 1 \<and> Priority taskB = 5
   \<and> \<not> menuLess taskA taskB \<and> \<not> menuLess taskB taskA
   \<and> sortedBy menuLess [taskB, taskA]"
  by (simp add: taskA_def taskB_def todo0_def menuLess_def IsZero_def zeroTime_def Before_def
      stamp_def sortedBy_def)

text \<open>
  The other keys are as the claim has them: a task with a due date comes before one
  without, due dates ascend, and among tasks without a due date priorities ascend with 0
  last, then the newer task comes first.
\<close>

lemma menuLess_due_first:
  "\<not> IsZero (DueDate a) \<Longrightarrow> IsZero (DueDate b) \<Longrightarrow> menuLess a b \<and> \<not> menuLess b a"
  by (simp add: menuLess_def)

lemma menuLess_by_due:
  "\<not> IsZero (DueDate a) \<Longrightarrow> \<not> IsZero (DueDate b) \<Longrightarrow>
     menuLess a b = Before (DueDate a) (DueDate b)"
  by (simp add: menuLess_def)

lemma menuLess_by_priority:
  "IsZero (DueDate a) \<Longrightarrow> IsZero (DueDate b) \<Longrightarrow> Priority a \<noteq> Priority b \<Longrightarrow>
     menuLess a b = (Priority a \<noteq> 0 \<and> (Priority b = 0 \<or> Priority a < Priority b))"
  by (auto simp: menuLess_def)

lemma menuLess_by_created:
  "IsZero (DueDate a) \<Longrightarrow> IsZero (DueDate b) \<Longrightarrow> Priority a = Priority b \<Longrightarrow>
     menuLess a b = After (Created a) (Created b)"
  by (simp add: menuLess_def)

lemma menuLess_irrefl: "\<not> menuLess a a"
  by (simp add: menuLess_def Before_def After_def)

lemma menuLess_trans: "menuLess a b \<Longrightarrow> menuLess b c \<Longrightarrow> menuLess a c"
  by (auto simp: menuLess_def Before_def After_def split: if_splits)

text \<open>
  Where any two different tasks of the list are comparable, the sorted rearrangement is
  unique, so the result of \<open>sort.Slice\<close> is determined; this gives the order of the
  example of the claim.
\<close>

lemma sortedBy_unique:
  assumes "sortedBy lt xs" "sortedBy lt ys" "mset xs = mset ys"
    and total: "\<forall>x \<in> set xs. \<forall>y \<in> set xs. x \<noteq> y \<longrightarrow> lt x y \<or> lt y x"
  shows "xs = ys"
  using assms
proof (induction xs arbitrary: ys)
  case Nil
  then show ?case by simp
next
  case (Cons x xs)
  from Cons.prems(3) obtain y ys' where ys: "ys = y # ys'" by (cases ys) auto
  have "x = y"
  proof (rule ccontr)
    assume ne: "x \<noteq> y"
    from Cons.prems(3) ys have "set (x # xs) = set (y # ys')" by (metis mset_eq_setD)
    with ne have xin: "x \<in> set ys'" and yin: "y \<in> set xs" by auto
    from Cons.prems(2) ys xin have "\<not> lt x y" by (auto simp: sortedBy_def)
    moreover from Cons.prems(1) yin have "\<not> lt y x" by (auto simp: sortedBy_def)
    moreover from Cons.prems(4) yin ne have "lt x y \<or> lt y x" by auto
    ultimately show False by blast
  qed
  moreover have "xs = ys'"
  proof (rule Cons.IH)
    show "sortedBy lt xs" using Cons.prems(1) by (simp add: sortedBy_def)
    show "sortedBy lt ys'" using Cons.prems(2) ys by (simp add: sortedBy_def)
    show "mset xs = mset ys'" using Cons.prems(3) ys \<open>x = y\<close> by simp
    show "\<forall>x \<in> set xs. \<forall>y \<in> set xs. x \<noteq> y \<longrightarrow> lt x y \<or> lt y x" using Cons.prems(4) by simp
  qed
  ultimately show ?case using ys by simp
qed

lemma example_order:
  assumes "\<not> IsZero (DueDate A)" "\<not> IsZero (DueDate B)" "Before (DueDate A) (DueDate B)"
    and "IsZero (DueDate P1)" "Priority P1 = 1" "IsZero (DueDate P0)" "Priority P0 = 0"
    and "mset ys = mset [A, B, P1, P0]" "sortedBy menuLess ys"
  shows "ys = [A, B, P1, P0]"
proof -
  have l: "menuLess A B" "menuLess A P1" "menuLess A P0" "menuLess B P1" "menuLess B P0"
    "menuLess P1 P0"
    using assms(1-7) by (simp_all add: menuLess_def)
  have "\<not> Before (DueDate B) (DueDate A)"
    using assms(3) by (auto simp: Before_def)
  then have n: "\<not> menuLess B A" "\<not> menuLess P1 A" "\<not> menuLess P0 A" "\<not> menuLess P1 B"
    "\<not> menuLess P0 B" "\<not> menuLess P0 P1"
    using assms(1-7) by (simp_all add: menuLess_def)
  have s: "sortedBy menuLess [A, B, P1, P0]" using n by (simp add: sortedBy_def)
  have t: "\<forall>x \<in> set [A, B, P1, P0]. \<forall>y \<in> set [A, B, P1, P0]. x \<noteq> y \<longrightarrow> menuLess x y \<or> menuLess y x"
    using l by auto
  from sortedBy_unique [OF s assms(9) assms(8) [symmetric] t] show ?thesis by simp
qed

section \<open>The range of the priority\<close>

definition priorityOK :: "Todo \<Rightarrow> bool" where
  "priorityOK t = (0 \<le> Priority t \<and> Priority t \<le> 9)"

lemma updateStartDate_priority:
  "Priority (heap (updateStartDate E r d s) q) = Priority (heap s q)"
  by (simp add: updateStartDate_def setTodo_def Let_def split: option.splits)

lemma updateStartTime_priority:
  "Priority (heap (updateStartTime E r t s) q) = Priority (heap s q)"
  by (simp add: updateStartTime_def setTodo_def Now_def Let_def split: option.splits prod.splits)

lemma editSwitch_priority:
  assumes "editSwitch E r out s = Some (x, s')" and "priorityOK (heap s r)"
  shows "priorityOK (heap s' r)"
proof -
  have d: "\<And>a b c. display a = Some (b, c) \<Longrightarrow> heap c = heap a"
    using display_frame by simp
  have del: "\<And>b c. deleteTodo E r b = c \<Longrightarrow> heap (snd c) = heap b"
    using deleteTodo_frame by blast
  show ?thesis
    using assms unfolding editSwitch_def continue_def priorityOK_def
    by (auto simp: editTitle_def editPriority_def editCategories_def editDueDate_def
          editStartDate_def editStartTime_def editDescription_def editDelete_def setStatus_def
          setTodo_def Now_def Let_def updateStartDate_priority updateStartTime_priority
          bind_eq_Some_conv
        split: if_splits prod.splits option.splits bool.splits
        dest!: d del)
qed

lemma editLoop_priority:
  "editLoop E originalTodo isNew r s = Some (x, s') \<Longrightarrow> priorityOK originalTodo \<Longrightarrow>
     priorityOK (heap s r) \<Longrightarrow> priorityOK (heap s' r)"
proof (induction E originalTodo isNew r s rule: editLoop.induct)
  case (1 E originalTodo isNew r s)
  from "1.prems"(1) obtain out e s1 where d: "display s = Some ((out, e), s1)"
    by (subst (asm) editLoop.simps) (auto split: option.splits)
  have f1: "heap s1 = heap s" using display_frame [OF d] by simp
  show ?case
  proof (cases e)
    case True
    with "1.prems" d f1 show ?thesis
      by (subst (asm) editLoop.simps) (auto simp: setTodo_def split: if_splits)
  next
    case False
    from "1.prems"(1) d False
    have run: "(case editSwitch E r out s1 of
                  None \<Rightarrow> None
                | Some (Stop x, s2) \<Rightarrow> Some (x, s2)
                | Some (Continue, s2) \<Rightarrow> editLoop E originalTodo isNew r s2)
               = Some (x, s')"
      by (subst (asm) editLoop.simps) simp
    then obtain st s2 where sw: "editSwitch E r out s1 = Some (st, s2)"
      by (cases "editSwitch E r out s1") auto
    have ok2: "priorityOK (heap s2 r)"
      using editSwitch_priority [OF sw] "1.prems"(3) f1 by simp
    show ?thesis
    proof (cases st)
      case Continue
      with run sw have rec: "editLoop E originalTodo isNew r s2 = Some (x, s')" by simp
      from "1.IH" [OF d refl refl False _ refl refl rec "1.prems"(2) ok2] sw Continue
      show ?thesis by simp
    next
      case (Stop y)
      with run sw have "s' = s2" by simp
      with ok2 show ?thesis by simp
    qed
  qed
qed

lemma editItem_priority:
  assumes "editItem E r s = Some (x, s')" and "priorityOK (heap s q)"
  shows "priorityOK (heap s' q)"
proof (cases "q = r")
  case True
  with assms editLoop_priority [of E "heap s r" "UID (heap s r) = []" r s x s']
  show ?thesis by (simp add: editItem_def)
next
  case False
  with assms editLoop_frame [of E "heap s r" "UID (heap s r) = []" r s x s']
  show ?thesis by (simp add: editItem_def)
qed

lemma addItem_priority:
  assumes run: "addItem E s = Some s'" and ok: "\<forall>q \<in> set (Todos s). priorityOK (heap s q)"
  shows "\<forall>q \<in> set (Todos s'). priorityOK (heap s' q)"
proof -
  obtain r s4 where n: "newTodo E s = (r, s4)" by (cases "newTodo E s")
  note fr = newTodo_frame [OF n]
  have new: "priorityOK (heap s4 r)"
    using n by (auto simp: newTodo_def generateUID_def Now_def setTodo_def Let_def priorityOK_def)
  have ok4: "\<forall>q \<in> set (Todos s). priorityOK (heap s4 q)"
    using ok fr newRef_fresh [of "Todos s"] by (metis)
  from run n show ?thesis
  proof (cases rule: addItem_cases)
    case (quit summary e s5)
    with display_frame [OF quit(1)] fr ok4 show ?thesis
      by (auto simp: setTodo_def priorityOK_def)
  next
    case (drop summary s5 x s7)
    let ?s6 = "setTodo r ((heap s5 r)\<lparr>Summary := summary\<rparr>) s5"
    have h5: "heap s5 = heap s4" "Todos s5 = Todos s4" using display_frame [OF drop(1)] by simp_all
    have "\<forall>q \<in> set (Todos s). priorityOK (heap ?s6 q)"
      using ok4 h5 by (auto simp: setTodo_def priorityOK_def)
    then have "\<forall>q \<in> set (Todos s). priorityOK (heap s7 q)"
      using editItem_priority [OF drop(2)] by blast
    moreover have "set (Todos s7) \<subseteq> set (Todos s)"
      using editLoop_frame [OF drop(2) [unfolded editItem_def]] h5 fr by (auto simp: setTodo_def)
    ultimately show ?thesis using drop(3) by auto
  next
    case (add summary s5 x s7)
    let ?s6 = "setTodo r ((heap s5 r)\<lparr>Summary := summary\<rparr>) s5"
    have h5: "heap s5 = heap s4" "Todos s5 = Todos s4" using display_frame [OF add(1)] by simp_all
    have "\<forall>q \<in> set (Todos s) \<union> {r}. priorityOK (heap ?s6 q)"
      using ok4 new h5 by (auto simp: setTodo_def priorityOK_def)
    then have a: "\<forall>q \<in> set (Todos s) \<union> {r}. priorityOK (heap s7 q)"
      using editItem_priority [OF add(2)] by blast
    have "set (Todos s7) \<subseteq> set (Todos s)"
      using editLoop_frame [OF add(2) [unfolded editItem_def]] h5 fr by (auto simp: setTodo_def)
    with a add(5) show ?thesis by (auto simp: setTodo_def priorityOK_def)
  qed
qed

lemma saveLoop_priority:
  assumes "saveLoop E d qs s = (ok, s')"
  shows "Priority (heap s' q) = Priority (heap s q)"
proof -
  from saveLoop_frame [OF assms]
  have "heap s' q = heap s q \<or> heap s' q = (heap s q)\<lparr>Modified := False\<rparr>" by blast
  then show ?thesis by auto
qed

lemma deleteEach_frame:
  "deleteEach E ts remainingTodos s = (remaining, s') \<Longrightarrow>
     heap s' = heap s \<and> set remaining \<subseteq> set remainingTodos \<union> set ts"
proof (induction ts arbitrary: remainingTodos s)
  case Nil
  then show ?case by simp
next
  case (Cons t ts)
  obtain ok s1 where d: "deleteTodo E t s = (ok, s1)" by (cases "deleteTodo E t s")
  from deleteTodo_frame [of E t s] d have h: "heap s1 = heap s" by simp
  show ?case
  proof (cases ok)
    case True
    with Cons.prems d have "deleteEach E ts remainingTodos s1 = (remaining, s')" by simp
    from Cons.IH [OF this] h show ?thesis by auto
  next
    case False
    with Cons.prems d have "deleteEach E ts (remainingTodos @ [t]) s1 = (remaining, s')" by simp
    from Cons.IH [OF this] h show ?thesis by auto
  qed
qed

lemma deleteAllCompleted_frame:
  "heap (deleteAllCompleted E s) = heap s
   \<and> set (Todos (deleteAllCompleted E s)) \<subseteq> set (Todos s)"
proof -
  let ?c = "filter (\<lambda>t. Status (heap s t) = ''COMPLETED'') (Todos s)"
  let ?r = "filter (\<lambda>t. Status (heap s t) \<noteq> ''COMPLETED'') (Todos s)"
  obtain remaining s1 where d: "deleteEach E ?c ?r s = (remaining, s1)"
    by (cases "deleteEach E ?c ?r s")
  from deleteEach_frame [OF d] have "heap s1 = heap s" "set remaining \<subseteq> set (Todos s)"
    by auto
  with d show ?thesis by (simp add: deleteAllCompleted_def)
qed

lemma display_answers: "display s = Some (x, s1) \<Longrightarrow> set (script s1) \<subseteq> set (script s)"
  by (auto simp: display_def split: list.splits reply.splits)

lemma editSwitch_answers:
  assumes "editSwitch E r out s = Some (x, s')"
  shows "set (script s') \<subseteq> set (script s)"
proof -
  have d: "\<And>a b c. display a = Some (b, c) \<Longrightarrow> set (script c) \<subseteq> set (script a)"
    using display_answers by simp
  have del: "\<And>b c. deleteTodo E r b = c \<Longrightarrow> script (snd c) = script b"
    using deleteTodo_script by blast
  show ?thesis
    using assms unfolding editSwitch_def continue_def
    by (auto simp: editTitle_def editPriority_def editCategories_def editDueDate_def
          editStartDate_def editStartTime_def editDescription_def editDelete_def setStatus_def
          setTodo_def Now_def Let_def updateStartDate_script updateStartTime_script
          bind_eq_Some_conv
        split: if_splits prod.splits option.splits bool.splits
        dest!: d del)
qed

lemma editPriority_change:
  assumes "editPriority r s = Some s'"
  shows "Priority (heap s' r) = Priority (heap s r)
         \<or> (\<exists>a rest. script s = Answer a # rest
               \<and> Atoi (TrimRight a [CHR 0x0A]) = (Priority (heap s' r), True)
               \<and> 0 \<le> Priority (heap s' r) \<and> Priority (heap s' r) \<le> 9)"
  using assms
  by (auto simp: editPriority_def display_def setTodo_def bind_eq_Some_conv
      split: list.splits reply.splits if_splits prod.splits)

lemma editSwitch_priority_change:
  assumes "editSwitch E r out s = Some (x, s')"
  shows "Priority (heap s' r) = Priority (heap s r)
         \<or> (HasPrefix out ''Priority''
             \<and> (\<exists>a rest. script s = Answer a # rest
                   \<and> Atoi (TrimRight a [CHR 0x0A]) = (Priority (heap s' r), True)
                   \<and> 0 \<le> Priority (heap s' r) \<and> Priority (heap s' r) \<le> 9))"
proof (cases "out \<noteq> ''Save item'' \<and> \<not> HasPrefix out ''Title'' \<and> HasPrefix out ''Priority''")
  case True
  with assms have "continue (editPriority r s) = Some (x, s')" by (simp add: editSwitch_def)
  then have "editPriority r s = Some s'" by (auto simp: continue_def)
  from editPriority_change [OF this] True show ?thesis by simp
next
  case False
  have d: "\<And>a b c. display a = Some (b, c) \<Longrightarrow> heap c = heap a"
    using display_frame by simp
  have del: "\<And>b c. deleteTodo E r b = c \<Longrightarrow> heap (snd c) = heap b"
    using deleteTodo_frame by blast
  have "Priority (heap s' r) = Priority (heap s r)"
    using assms False unfolding editSwitch_def continue_def
    by (auto simp: editTitle_def editCategories_def editDueDate_def
          editStartDate_def editStartTime_def editDescription_def editDelete_def setStatus_def
          setTodo_def Now_def Let_def updateStartDate_priority updateStartTime_priority
          bind_eq_Some_conv
        split: if_splits prod.splits option.splits bool.splits
        dest!: d del)
  then show ?thesis by simp
qed


lemma editLoop_priority_trace:
  "editLoop E originalTodo isNew r s = Some (x, s') \<Longrightarrow>
     Priority (heap s' r) = Priority originalTodo
     \<or> Priority (heap s' r) = Priority (heap s r)
     \<or> (\<exists>a. Answer a \<in> set (script s)
            \<and> Atoi (TrimRight a [CHR 0x0A]) = (Priority (heap s' r), True)
            \<and> 0 \<le> Priority (heap s' r) \<and> Priority (heap s' r) \<le> 9)"
proof (induction E originalTodo isNew r s rule: editLoop.induct)
  case (1 E originalTodo isNew r s)
  from "1.prems"(1) obtain out e s1 where d: "display s = Some ((out, e), s1)"
    by (subst (asm) editLoop.simps) (auto split: option.splits)
  have f1: "heap s1 = heap s" using display_frame [OF d] by simp
  have a1: "set (script s1) \<subseteq> set (script s)" using d by (rule display_answers)
  show ?case
  proof (cases e)
    case True
    with "1.prems" d f1 show ?thesis
      by (subst (asm) editLoop.simps) (auto simp: setTodo_def split: if_splits)
  next
    case False
    from "1.prems"(1) d False
    have run: "(case editSwitch E r out s1 of
                  None \<Rightarrow> None
                | Some (Stop x, s2) \<Rightarrow> Some (x, s2)
                | Some (Continue, s2) \<Rightarrow> editLoop E originalTodo isNew r s2)
               = Some (x, s')"
      by (subst (asm) editLoop.simps) simp
    then obtain st s2 where sw: "editSwitch E r out s1 = Some (st, s2)"
      by (cases "editSwitch E r out s1") auto
    have a2: "set (script s2) \<subseteq> set (script s1)" using sw by (rule editSwitch_answers)
    have step: "Priority (heap s2 r) = Priority (heap s r)
         \<or> (\<exists>a. Answer a \<in> set (script s)
               \<and> Atoi (TrimRight a [CHR 0x0A]) = (Priority (heap s2 r), True)
               \<and> 0 \<le> Priority (heap s2 r) \<and> Priority (heap s2 r) \<le> 9)"
    proof -
      from editSwitch_priority_change [OF sw]
      consider "Priority (heap s2 r) = Priority (heap s1 r)"
        | a rest where "script s1 = Answer a # rest"
            "Atoi (TrimRight a [CHR 0x0A]) = (Priority (heap s2 r), True)"
            "0 \<le> Priority (heap s2 r)" "Priority (heap s2 r) \<le> 9"
        by blast
      then show ?thesis
      proof cases
        case 1
        with f1 show ?thesis by simp
      next
        case 2
        from 2(1) a1 have "Answer a \<in> set (script s)" by auto
        with 2 show ?thesis by blast
      qed
    qed
    show ?thesis
    proof (cases st)
      case Continue
      with run sw have rec: "editLoop E originalTodo isNew r s2 = Some (x, s')" by simp
      from "1.IH" [OF d refl refl False _ refl refl rec] sw Continue
      have ih: "Priority (heap s' r) = Priority originalTodo
         \<or> Priority (heap s' r) = Priority (heap s2 r)
         \<or> (\<exists>a. Answer a \<in> set (script s2)
               \<and> Atoi (TrimRight a [CHR 0x0A]) = (Priority (heap s' r), True)
               \<and> 0 \<le> Priority (heap s' r) \<and> Priority (heap s' r) \<le> 9)"
        by simp
      from a1 a2 have sub: "set (script s2) \<subseteq> set (script s)" by blast
      from ih show ?thesis
      proof (elim disjE exE)
        assume "Priority (heap s' r) = Priority originalTodo"
        then show ?thesis by simp
      next
        assume "Priority (heap s' r) = Priority (heap s2 r)"
        with step show ?thesis by simp
      next
        fix a
        assume "Answer a \<in> set (script s2)
               \<and> Atoi (TrimRight a [CHR 0x0A]) = (Priority (heap s' r), True)
               \<and> 0 \<le> Priority (heap s' r) \<and> Priority (heap s' r) \<le> 9"
        with sub show ?thesis by blast
      qed
    next
      case (Stop y)
      with run sw have "s' = s2" by simp
      with step show ?thesis by simp
    qed
  qed
qed

lemma editItem_priority_trace:
  assumes "editItem E r s = Some (x, s')"
  shows "(\<forall>q. q \<noteq> r \<longrightarrow> heap s' q = heap s q)
         \<and> (Priority (heap s' r) = Priority (heap s r)
            \<or> (\<exists>a. Answer a \<in> set (script s)
                  \<and> Atoi (TrimRight a [CHR 0x0A]) = (Priority (heap s' r), True)
                  \<and> 0 \<le> Priority (heap s' r) \<and> Priority (heap s' r) \<le> 9))"
  using assms editLoop_frame [of E "heap s r" "UID (heap s r) = []" r s x s']
    editLoop_priority_trace [of E "heap s r" "UID (heap s r) = []" r s x s']
  by (simp add: editItem_def)

lemma addItem_listed:
  assumes run: "addItem E s = Some s'" and q: "q \<in> set (Todos s)"
  shows "heap s' q = heap s q"
proof -
  obtain r s4 where n: "newTodo E s = (r, s4)" by (cases "newTodo E s")
  note fr = newTodo_frame [OF n]
  from fr q newRef_fresh [of "Todos s"] have ne: "q \<noteq> r" by auto
  with fr have h4: "heap s4 q = heap s q" by simp
  from run n show ?thesis
  proof (cases rule: addItem_cases)
    case (quit summary e s5)
    with display_frame [OF quit(1)] h4 ne show ?thesis by (simp add: setTodo_def)
  next
    case (drop summary s5 x s7)
    from editLoop_frame [OF drop(2) [unfolded editItem_def]] ne
    have "heap s7 q = heap s5 q" by (simp add: setTodo_def)
    with display_frame [OF drop(1)] h4 drop(3) show ?thesis by simp
  next
    case (add summary s5 x s7)
    from editLoop_frame [OF add(2) [unfolded editItem_def]] ne
    have "heap s7 q = heap s5 q" by (simp add: setTodo_def)
    with display_frame [OF add(1)] h4 add(5) ne show ?thesis by (simp add: setTodo_def)
  qed
qed

lemma editPriority_rejected:
  assumes "script s = Answer a # b # rest" and "b \<noteq> Crash"
    and "Atoi (TrimRight a [CHR 0x0A]) = (n, ok)" and "\<not> (ok \<and> 0 \<le> n \<and> n \<le> 9)"
  shows "editPriority r s = Some (s\<lparr>script := rest\<rparr>)"
  using assms
  by (cases b) (auto simp: editPriority_def display_def)

lemma editPriority_escape:
  "script s = Escape # rest \<Longrightarrow> editPriority r s = Some (s\<lparr>script := rest\<rparr>)"
  by (simp add: editPriority_def display_def)

text \<open>
  C6 as the code has it. Editing keeps the priority of every task between 0 and 9 when it
  was so before. It changes the priority of no other task, and the priority of the edited
  task is afterwards what it was on entry or a number from 0 to 9 that the launcher
  answered; a single pass of the loop changes it only in the Priority case, to such a number
  answered at the prompt. The priority prompt stores exactly the numbers 0 to 9 and marks the
  task modified; any other answer, and a cancelled prompt, leave the whole state but the
  consumed answers as it was. Adding a task keeps the range and every listed task as it is;
  saving and the bulk deletion change no priority. A task made from a stored component has
  the integer that the \<open>PRIORITY\<close> property holds (0 when the property is missing or is not
  a number), without any check of its range.
\<close>

theorem priority_range_preserved:
  "(\<forall>x s'. editItem E r s = Some (x, s') \<longrightarrow>
      (\<forall>q. priorityOK (heap s q) \<longrightarrow> priorityOK (heap s' q))
      \<and> (\<forall>q. q \<noteq> r \<longrightarrow> Priority (heap s' q) = Priority (heap s q))
      \<and> (Priority (heap s' r) = Priority (heap s r)
         \<or> (\<exists>b. Answer b \<in> set (script s)
               \<and> Atoi (TrimRight b [CHR 0x0A]) = (Priority (heap s' r), True)
               \<and> 0 \<le> Priority (heap s' r) \<and> Priority (heap s' r) \<le> 9)))
   \<and> (\<forall>x s'. editSwitch E r out s = Some (x, s') \<longrightarrow>
        Priority (heap s' r) = Priority (heap s r)
        \<or> (HasPrefix out ''Priority''
            \<and> (\<exists>b rest'. script s = Answer b # rest'
                  \<and> Atoi (TrimRight b [CHR 0x0A]) = (Priority (heap s' r), True)
                  \<and> 0 \<le> Priority (heap s' r) \<and> Priority (heap s' r) \<le> 9)))
   \<and> (\<forall>n. script s = Answer a # rest \<and> Atoi (TrimRight a [CHR 0x0A]) = (n, True) \<and> 0 \<le> n \<and> n \<le> 9 \<longrightarrow>
        (\<exists>s'. editPriority r s = Some s' \<and> Priority (heap s' r) = n \<and> Modified (heap s' r)))
   \<and> (\<forall>n ok b rest'. script s = Answer a # b # rest' \<and> b \<noteq> Crash
          \<and> Atoi (TrimRight a [CHR 0x0A]) = (n, ok) \<and> \<not> (ok \<and> 0 \<le> n \<and> n \<le> 9) \<longrightarrow>
        editPriority r s = Some (s\<lparr>script := rest'\<rparr>))
   \<and> (script s = Escape # rest \<longrightarrow> editPriority r s = Some (s\<lparr>script := rest\<rparr>))
   \<and> (\<forall>s'. addItem E s = Some s' \<longrightarrow> (\<forall>q \<in> set (Todos s). priorityOK (heap s q)) \<longrightarrow>
        (\<forall>q \<in> set (Todos s'). priorityOK (heap s' q)))
   \<and> (\<forall>s'. addItem E s = Some s' \<longrightarrow> (\<forall>q \<in> set (Todos s). heap s' q = heap s q))
   \<and> (\<forall>ok s'. saveTodos E dirPath s = (ok, s') \<longrightarrow> (\<forall>q. Priority (heap s' q) = Priority (heap s q)))
   \<and> heap (deleteAllCompleted E s) = heap s
   \<and> set (Todos (deleteAllCompleted E s)) \<subseteq> set (Todos s)
   \<and> Priority (convertVTodoToTodo E props)
       = (case propertyValue props ''PRIORITY'' of Some v \<Rightarrow> fst (Atoi v) | None \<Rightarrow> 0)"
proof -
  have c1: "\<forall>x s'. editItem E r s = Some (x, s') \<longrightarrow>
      (\<forall>q. priorityOK (heap s q) \<longrightarrow> priorityOK (heap s' q))
      \<and> (\<forall>q. q \<noteq> r \<longrightarrow> Priority (heap s' q) = Priority (heap s q))
      \<and> (Priority (heap s' r) = Priority (heap s r)
         \<or> (\<exists>b. Answer b \<in> set (script s)
               \<and> Atoi (TrimRight b [CHR 0x0A]) = (Priority (heap s' r), True)
               \<and> 0 \<le> Priority (heap s' r) \<and> Priority (heap s' r) \<le> 9))"
  proof (intro allI impI)
    fix x s'
    assume run: "editItem E r s = Some (x, s')"
    have "\<forall>q. priorityOK (heap s q) \<longrightarrow> priorityOK (heap s' q)"
      using editItem_priority [OF run] by blast
    moreover have "\<forall>q. q \<noteq> r \<longrightarrow> Priority (heap s' q) = Priority (heap s q)"
      using editItem_priority_trace [OF run] by simp
    moreover have "Priority (heap s' r) = Priority (heap s r)
         \<or> (\<exists>b. Answer b \<in> set (script s)
               \<and> Atoi (TrimRight b [CHR 0x0A]) = (Priority (heap s' r), True)
               \<and> 0 \<le> Priority (heap s' r) \<and> Priority (heap s' r) \<le> 9)"
      using editItem_priority_trace [OF run] by simp
    ultimately show "(\<forall>q. priorityOK (heap s q) \<longrightarrow> priorityOK (heap s' q))
      \<and> (\<forall>q. q \<noteq> r \<longrightarrow> Priority (heap s' q) = Priority (heap s q))
      \<and> (Priority (heap s' r) = Priority (heap s r)
         \<or> (\<exists>b. Answer b \<in> set (script s)
               \<and> Atoi (TrimRight b [CHR 0x0A]) = (Priority (heap s' r), True)
               \<and> 0 \<le> Priority (heap s' r) \<and> Priority (heap s' r) \<le> 9))"
      by blast
  qed
  have c2: "\<forall>x s'. editSwitch E r out s = Some (x, s') \<longrightarrow>
        Priority (heap s' r) = Priority (heap s r)
        \<or> (HasPrefix out ''Priority''
            \<and> (\<exists>b rest'. script s = Answer b # rest'
                  \<and> Atoi (TrimRight b [CHR 0x0A]) = (Priority (heap s' r), True)
                  \<and> 0 \<le> Priority (heap s' r) \<and> Priority (heap s' r) \<le> 9))"
    using editSwitch_priority_change [of E r out s] by blast
  have c3: "\<forall>n. script s = Answer a # rest \<and> Atoi (TrimRight a [CHR 0x0A]) = (n, True) \<and> 0 \<le> n \<and> n \<le> 9 \<longrightarrow>
        (\<exists>s'. editPriority r s = Some s' \<and> Priority (heap s' r) = n \<and> Modified (heap s' r))"
    by (auto simp: editPriority_def display_def setTodo_def)
  have c4: "\<forall>n ok b rest'. script s = Answer a # b # rest' \<and> b \<noteq> Crash
          \<and> Atoi (TrimRight a [CHR 0x0A]) = (n, ok) \<and> \<not> (ok \<and> 0 \<le> n \<and> n \<le> 9) \<longrightarrow>
        editPriority r s = Some (s\<lparr>script := rest'\<rparr>)"
    using editPriority_rejected [of s a _ _ _ _ r] by blast
  have c5: "script s = Escape # rest \<longrightarrow> editPriority r s = Some (s\<lparr>script := rest\<rparr>)"
    using editPriority_escape [of s rest r] by blast
  have c6: "\<forall>s'. addItem E s = Some s' \<longrightarrow> (\<forall>q \<in> set (Todos s). priorityOK (heap s q)) \<longrightarrow>
        (\<forall>q \<in> set (Todos s'). priorityOK (heap s' q))"
    using addItem_priority [of E s] by blast
  have c7: "\<forall>s'. addItem E s = Some s' \<longrightarrow> (\<forall>q \<in> set (Todos s). heap s' q = heap s q)"
    using addItem_listed [of E s] by blast
  have c8: "\<forall>ok s'. saveTodos E dirPath s = (ok, s') \<longrightarrow>
        (\<forall>q. Priority (heap s' q) = Priority (heap s q))"
    unfolding saveTodos_def using saveLoop_priority [of E dirPath "Todos s" s] by blast
  have c9: "heap (deleteAllCompleted E s) = heap s"
    using deleteAllCompleted_frame [of E s] by simp
  have c10: "set (Todos (deleteAllCompleted E s)) \<subseteq> set (Todos s)"
    using deleteAllCompleted_frame [of E s] by simp
  have c11: "Priority (convertVTodoToTodo E props)
       = (case propertyValue props ''PRIORITY'' of Some v \<Rightarrow> fst (Atoi v) | None \<Rightarrow> 0)"
    by (simp add: convertVTodoToTodo_def)
  from c1 c2 c3 c4 c5 c6 c7 c8 c9 c10 c11 show ?thesis by (intro conjI)
qed

theorem priority_range_preserved_witness:
  "script (world0 [Answer ''7'']) = Answer ''7'' # []
   \<and> Atoi (TrimRight ''7'' [CHR 0x0A]) = (7, True)
   \<and> (\<exists>s'. editPriority 0 (world0 [Answer ''7'']) = Some s'
          \<and> Priority (heap s' 0) = 7 \<and> Modified (heap s' 0))
   \<and> script (world0 [Answer ''12'', Answer []]) = Answer ''12'' # Answer [] # []
   \<and> Atoi (TrimRight ''12'' [CHR 0x0A]) = (12, True)
   \<and> editPriority 0 (world0 [Answer ''12'', Answer []]) = Some (world0 [])
   \<and> priorityOK (heap (world0 [Answer ''Priority: 3'', Answer ''12'', Answer [],
                                Answer ''Save item'']) 0)
   \<and> (\<exists>x s'. editItem env0 0 (world0 [Answer ''Priority: 3'', Answer ''12'', Answer [],
                                         Answer ''Save item'']) = Some (x, s')
          \<and> priorityOK (heap s' 0) \<and> Priority (heap s' 0) = 3)
   \<and> (\<exists>s'. addItem env0 (world0 [Escape]) = Some s' \<and> heap s' 0 = todo0)"
proof -
  let ?w = "world0 [Answer ''Priority: 3'', Answer ''12'', Answer [], Answer ''Save item'']"
  let ?v = "world0 [Answer ''12'', Answer []]"
  have h1: "script (world0 [Answer ''7'']) = Answer ''7'' # []" by (simp add: world0_def)
  have h2: "Atoi (TrimRight ''7'' [CHR 0x0A]) = (7, True)"
    by (simp add: TrimRight_def Atoi_def isDigit_def digitVal_def digitsVal_def)
  have k1: "script ?v = Answer ''12'' # Answer [] # []" by (simp add: world0_def)
  have k2: "Atoi (TrimRight ''12'' [CHR 0x0A]) = (12, True)"
    by (simp add: TrimRight_def Atoi_def isDigit_def digitVal_def digitsVal_def)
  have ok: "priorityOK (heap ?w 0)" by (simp add: world0_def todo0_def priorityOK_def)
  have p3: "Priority (heap ?w 0) = 3" by (simp add: world0_def todo0_def)
  have "\<exists>x s'. editItem env0 0 ?w = Some (x, s')"
    by (simp add: editItem_def world0_def display_def TrimRight_def editSwitch_def
        HasPrefix_def continue_def editPriority_def Atoi_def isDigit_def digitVal_def
        digitsVal_def Now_def setTodo_def Let_def)
  then obtain x s' where run: "editItem env0 0 ?w = Some (x, s')" by blast
  have none: "\<not> (\<exists>b. Answer b \<in> set (script ?w)
               \<and> Atoi (TrimRight b [CHR 0x0A]) = (Priority (heap s' 0), True)
               \<and> 0 \<le> Priority (heap s' 0) \<and> Priority (heap s' 0) \<le> 9)"
    by (auto simp: world0_def TrimRight_def Atoi_def isDigit_def digitVal_def digitsVal_def)
  note t = priority_range_preserved [of env0 0 ?w "''Priority: 3''" "''7''" "[]" "''todos''" "[]"]
  from t run ok have a: "priorityOK (heap s' 0)" by blast
  from t run none have "Priority (heap s' 0) = Priority (heap ?w 0)" by blast
  with p3 have a': "Priority (heap s' 0) = 3" by simp
  note u = priority_range_preserved
             [of env0 0 "world0 [Answer ''7'']" "''Priority: 3''" "''7''" "[]" "''todos''" "[]"]
  from u h1 h2 have b: "\<exists>s'. editPriority 0 (world0 [Answer ''7'']) = Some s'
          \<and> Priority (heap s' 0) = 7 \<and> Modified (heap s' 0)"
    by simp
  note v = priority_range_preserved [of env0 0 ?v "''Priority: 3''" "''12''" "[]" "''todos''" "[]"]
  have nc: "Answer [] \<noteq> Crash" by simp
  have rej: "\<not> (True \<and> (0::int) \<le> 12 \<and> (12::int) \<le> 9)" by simp
  from v k1 k2 nc rej have "editPriority 0 ?v = Some (?v\<lparr>script := []\<rparr>)" by blast
  then have c: "editPriority 0 ?v = Some (world0 [])" by (simp add: world0_def)
  have "\<exists>s'. addItem env0 (world0 [Escape]) = Some s'"
    by (simp add: addItem_def newTodo_def generateUID_def Now_def setTodo_def Let_def
        world0_def display_def)
  then obtain s2 where ad: "addItem env0 (world0 [Escape]) = Some s2" ..
  note z = priority_range_preserved
             [of env0 0 "world0 [Escape]" "''Priority: 3''" "''7''" "[]" "''todos''" "[]"]
  have "0 \<in> set (Todos (world0 [Escape]))" "heap (world0 [Escape]) 0 = todo0"
    by (simp_all add: world0_def)
  with z ad have d: "heap s2 0 = todo0" by simp
  from h1 h2 b k1 k2 c ok run a a' ad d show ?thesis by blast
qed

text \<open>An environment in which the text \<open>x\<close> is a calendar with one to-do of priority 42.\<close>

definition envLoad :: env where
  "envLoad = env0\<lparr>ParseCalendar :=
      (\<lambda>text. if text = ''x''
               then Some \<lparr>CalendarProperties = [],
                          Components = [VTodo [(''UID'', ''a1''), (''SUMMARY'', ''Tea''),
                                               (''PRIORITY'', ''42'')]]\<rparr>
               else None)\<rparr>"

text \<open>
  C6 as stated fails: loading does not bring a stored priority into the range 0 to 9.
\<close>

theorem loaded_priority_out_of_range:
  "Priority (convertVTodoToTodo env0 [(''UID'', ''a1''), (''SUMMARY'', ''Tea''), (''PRIORITY'', ''42'')]) = 42
   \<and> map Priority (loadTodos envLoad [''todos/a1.ics'' \<mapsto> ''x''] ''todos'' [''a1.ics'', ''notes.txt'']) = [42]"
  by (simp add: convertVTodoToTodo_def propertyValue_def GetProperty_def Atoi_def isDigit_def
      digitVal_def digitsVal_def Let_def envLoad_def env0_def Ext_def)

section \<open>Stored times\<close>

text \<open>Decimal output read back: a number written in a field of its width is read as itself.\<close>

declare natDigits.simps [simp del]

lemma digitVal_digitChar: "n < 10 \<Longrightarrow> digitVal (digitChar n) = Some n"
  by (simp add: digitVal_def digitChar_def Let_def)

lemma isDigit_digitChar: "n < 10 \<Longrightarrow> isDigit (digitChar n)"
  by (simp add: isDigit_def digitVal_digitChar)

lemma digitsVal_snoc: "digitsVal (ds @ [c]) = 10 * digitsVal ds + the (digitVal c)"
  by (simp add: digitsVal_def)

lemma natDigits_digits: "list_all isDigit (natDigits n)"
proof (induction n rule: natDigits.induct)
  case (1 n)
  then show ?case
    by (subst natDigits.simps) (auto simp: isDigit_digitChar)
qed

lemma natDigits_val: "digitsVal (natDigits n) = n"
proof (induction n rule: natDigits.induct)
  case (1 n)
  show ?case
  proof (cases "n < 10")
    case True
    then show ?thesis
      by (subst natDigits.simps) (simp add: digitsVal_def digitVal_digitChar)
  next
    case False
    with 1 have "digitsVal (natDigits (n div 10)) = n div 10" by simp
    with False show ?thesis
      by (subst natDigits.simps) (simp add: digitsVal_snoc digitVal_digitChar)
  qed
qed

lemma natDigits_length: "n < 10 ^ k \<Longrightarrow> 0 < k \<Longrightarrow> length (natDigits n) \<le> k"
proof (induction n arbitrary: k rule: natDigits.induct)
  case (1 n)
  show ?case
  proof (cases "n < 10")
    case True
    with "1.prems" show ?thesis by (subst natDigits.simps) simp
  next
    case False
    with "1.prems" obtain j where k: "k = Suc j" by (cases k) auto
    with False "1.prems" have j: "0 < j" by (cases j) auto
    from "1.prems" k have "n div 10 < 10 ^ j" by (simp add: less_mult_imp_div_less mult.commute)
    from "1.IH" [OF False this j] have "length (natDigits (n div 10)) \<le> j" .
    with False k show ?thesis by (subst natDigits.simps) simp
  qed
qed

lemma natDigits_nonempty: "natDigits n \<noteq> []"
  by (subst natDigits.simps) simp

lemma digitsVal_zeros: "digitsVal (replicate z CHR ''0'' @ ds) = digitsVal ds"
proof -
  have "foldl (\<lambda>n c. 10 * n + the (digitVal c)) 0 (replicate z CHR ''0'') = 0"
    by (induction z) (simp_all add: digitVal_def)
  then show ?thesis by (simp add: digitsVal_def)
qed

lemma isDigit_zero: "isDigit CHR ''0''"
  by (simp add: isDigit_def digitVal_def)

lemma appendInt_field:
  assumes "0 \<le> x" "x < 10 ^ w" "0 < w"
  shows "length (appendInt x w) = w \<and> fieldVal (appendInt x w) = Some x"
proof -
  let ?ds = "natDigits (nat x)"
  from assms have "nat x < 10 ^ w"
    by (metis nat_less_iff of_nat_numeral of_nat_power)
  from natDigits_length [OF this assms(3)] have len: "length ?ds \<le> w" .
  have a: "appendInt x w = replicate (w - length ?ds) CHR ''0'' @ ?ds"
    using assms(1) by (simp add: appendInt_def Let_def)
  have "list_all isDigit (appendInt x w)"
    unfolding a using natDigits_digits [of "nat x"] isDigit_zero by (auto simp: list_all_iff)
  moreover have "appendInt x w \<noteq> []" unfolding a using natDigits_nonempty by simp
  moreover have "digitsVal (appendInt x w) = nat x"
    unfolding a by (simp add: digitsVal_zeros natDigits_val)
  moreover have "length (appendInt x w) = w" unfolding a using len by simp
  ultimately show ?thesis using assms(1) by (simp add: fieldVal_def)
qed

text \<open>
  The readings of instants that the stored form can hold: a year of four digits and whole
  seconds. The other conditions hold of every reading of an instant.
\<close>

definition validStamp :: "Time \<Rightarrow> bool" where
  "validStamp t =
     (0 \<le> cYear t \<and> cYear t \<le> 9999 \<and> 1 \<le> cMonth t \<and> cMonth t \<le> 12 \<and> 1 \<le> cDay t
      \<and> cDay t \<le> daysIn (cMonth t) (cYear t) \<and> 0 \<le> cHour t \<and> cHour t < 24
      \<and> 0 \<le> cMinute t \<and> cMinute t < 60 \<and> 0 \<le> cSecond t \<and> cSecond t < 60 \<and> cNsec t = 0)"

lemma daysIn_le: "daysIn m y \<le> 31"
  by (simp add: daysIn_def)

lemma parseClock_formatUTC:
  assumes "validStamp t"
  shows "parseClock (formatUTC t) = Some (t, ''Z'')"
proof -
  from assms have d: "cDay t \<le> 31" using daysIn_le [of "cMonth t" "cYear t"]
    by (simp add: validStamp_def)
  from assms have
    y: "length (appendInt (cYear t) 4) = 4 \<and> fieldVal (appendInt (cYear t) 4) = Some (cYear t)" and
    mo: "length (appendInt (cMonth t) 2) = 2 \<and> fieldVal (appendInt (cMonth t) 2) = Some (cMonth t)" and
    h: "length (appendInt (cHour t) 2) = 2 \<and> fieldVal (appendInt (cHour t) 2) = Some (cHour t)" and
    mi: "length (appendInt (cMinute t) 2) = 2 \<and> fieldVal (appendInt (cMinute t) 2) = Some (cMinute t)" and
    se: "length (appendInt (cSecond t) 2) = 2 \<and> fieldVal (appendInt (cSecond t) 2) = Some (cSecond t)"
    by (simp_all add: validStamp_def appendInt_field)
  from assms d have
    dd: "length (appendInt (cDay t) 2) = 2 \<and> fieldVal (appendInt (cDay t) 2) = Some (cDay t)"
    by (simp add: validStamp_def appendInt_field)
  have fr: "fraction ''Z'' = (0, ''Z'')" by (simp add: fraction_def)
  from assms have eq: "\<lparr>cYear = cYear t, cMonth = cMonth t, cDay = cDay t, cHour = cHour t,
      cMinute = cMinute t, cSecond = cSecond t, cNsec = 0\<rparr> = t"
    by (simp add: validStamp_def)
  show ?thesis
    using assms y mo dd h mi se
    by (simp add: parseClock_def formatUTC_def nth_append fr eq validStamp_def)
qed


lemma digitsVal_bound: "list_all isDigit ds \<Longrightarrow> digitsVal ds < 10 ^ length ds"
proof (induction ds rule: rev_induct)
  case Nil
  then show ?case by (simp add: digitsVal_def)
next
  case (snoc c ds)
  then have "digitsVal ds < 10 ^ length ds" by simp
  moreover from snoc.prems have "the (digitVal c) < 10"
    by (auto simp: isDigit_def digitVal_def Let_def split: if_splits)
  ultimately show ?case by (simp add: digitsVal_snoc)
qed

lemma fieldVal_bound:
  assumes "fieldVal ds = Some y"
  shows "0 \<le> y \<and> y < 10 ^ length ds"
proof -
  from assms have "list_all isDigit ds" and y: "y = int (digitsVal ds)"
    by (auto simp: fieldVal_def split: if_splits)
  from digitsVal_bound [OF this(1)] y show ?thesis
    by (metis of_nat_0_le_iff of_nat_less_iff of_nat_numeral of_nat_power)
qed

lemma parseClock_valid:
  assumes "parseClock s = Some (c, rest)"
  shows "validStamp (c\<lparr>cNsec := 0\<rparr>)"
proof -
  from assms obtain y mo d h mi sec where
    f: "fieldVal (take 4 s) = Some y" "fieldVal (take 2 (drop 4 s)) = Some mo"
       "fieldVal (take 2 (drop 6 s)) = Some d" "fieldVal (take 2 (drop 9 s)) = Some h"
       "fieldVal (take 2 (drop 11 s)) = Some mi" "fieldVal (take 2 (drop 13 s)) = Some sec"
    and r: "1 \<le> mo" "mo \<le> 12" "1 \<le> d" "d \<le> daysIn mo y" "h < 24" "mi < 60" "sec < 60"
    and c: "cYear c = y" "cMonth c = mo" "cDay c = d" "cHour c = h" "cMinute c = mi"
           "cSecond c = sec"
    by (auto simp: parseClock_def bind_eq_Some_conv split: if_splits prod.splits)
  from assms have len: "15 \<le> length s" by (auto simp: parseClock_def split: if_splits)
  from fieldVal_bound [OF f(1)] len have "0 \<le> y" "y \<le> 9999" by auto
  moreover from fieldVal_bound [OF f(4)] have "0 \<le> h" by simp
  moreover from fieldVal_bound [OF f(5)] have "0 \<le> mi" by simp
  moreover from fieldVal_bound [OF f(6)] have "0 \<le> sec" by simp
  ultimately show ?thesis using r c by (simp add: validStamp_def)
qed

lemma formatUTC_nsec: "formatUTC (t\<lparr>cNsec := n\<rparr>) = formatUTC t"
  by (simp add: formatUTC_def)

lemma HasSuffix_formatUTC: "HasSuffix (formatUTC t) ''Z''"
  by (simp add: HasSuffix_def formatUTC_def)

lemma parseDateTime_formatUTC:
  assumes "validStamp t"
  shows "parseDateTime E (formatUTC t) = t"
  using parseClock_formatUTC [OF assms]
  by (simp add: parseDateTime_def HasSuffix_formatUTC parseUTC_def)

lemma formatUTC_nonempty: "formatUTC t \<noteq> []"
  by (simp add: formatUTC_def)

lemma GetProperty_SetProperty:
  "GetProperty (SetProperty ps n v) m = (if m = n then Some (n, v) else GetProperty ps m)"
  by (induction ps) (auto simp: GetProperty_def)

lemma GetProperty_removeProperty:
  "m \<noteq> n \<Longrightarrow> GetProperty (removeProperty ps n) m = GetProperty ps m"
  by (induction ps) (auto simp: GetProperty_def)

lemma GetProperty_setIfNotEmpty_other:
  "m \<noteq> n \<Longrightarrow> GetProperty (setPropertyIfNotEmpty ps n v) m = GetProperty ps m"
  by (simp add: setPropertyIfNotEmpty_def GetProperty_SetProperty GetProperty_removeProperty)

lemma GetProperty_setIfNotEmpty_same:
  "v \<noteq> [] \<Longrightarrow> GetProperty (setPropertyIfNotEmpty ps n v) n = Some (n, v)"
  by (simp add: setPropertyIfNotEmpty_def GetProperty_SetProperty)

lemma GetProperty_if_other:
  "m \<noteq> n \<Longrightarrow>
     GetProperty (if c then setPropertyIfNotEmpty ps n v else removeProperty ps n) m
       = GetProperty ps m"
  by (simp add: GetProperty_setIfNotEmpty_other GetProperty_removeProperty)

lemma GetProperty_if_keep:
  "m \<noteq> n \<Longrightarrow> GetProperty (if c then setPropertyIfNotEmpty ps n v else ps) m = GetProperty ps m"
  by (simp add: GetProperty_setIfNotEmpty_other)

lemma writeFields_lastmod:
  "propertyValue (writeFields todo props) ''LAST-MODIFIED'' = Some (formatUTC (LastMod todo))"
  by (simp add: writeFields_def propertyValue_def Let_def GetProperty_if_other GetProperty_if_keep
      GetProperty_setIfNotEmpty_other GetProperty_setIfNotEmpty_same GetProperty_removeProperty
      formatUTC_nonempty
      split del: if_split)

lemma writeFields_dtstart:
  "\<not> IsZero (StartDate todo) \<Longrightarrow>
     propertyValue (writeFields todo props) ''DTSTART'' = Some (formatUTC (StartDate todo))"
  by (simp add: writeFields_def propertyValue_def Let_def GetProperty_if_other GetProperty_if_keep
      GetProperty_setIfNotEmpty_other GetProperty_setIfNotEmpty_same GetProperty_removeProperty
      formatUTC_nonempty
      split del: if_split)

lemma writeFields_due:
  "\<not> IsZero (DueDate todo) \<Longrightarrow>
     propertyValue (writeFields todo props) ''DUE'' = Some (formatUTC (DueDate todo))"
  by (simp add: writeFields_def propertyValue_def Let_def GetProperty_if_other GetProperty_if_keep
      GetProperty_setIfNotEmpty_other GetProperty_setIfNotEmpty_same GetProperty_removeProperty
      formatUTC_nonempty
      split del: if_split)

lemma writeFields_created:
  "propertyValue props ''CREATED'' = None \<Longrightarrow>
     propertyValue (writeFields todo props) ''CREATED'' = Some (formatUTC (Created todo))"
  by (simp add: writeFields_def propertyValue_def Let_def GetProperty_if_other GetProperty_if_keep
      GetProperty_setIfNotEmpty_other GetProperty_setIfNotEmpty_same GetProperty_removeProperty
      formatUTC_nonempty
      split del: if_split)

text \<open>
  C7 as the code has it. What \<open>saveTodos\<close> writes for a time always ends in \<open>Z\<close>. Written and
  read back, a time with a year of four digits is the same instant up to its fraction of a
  second, which is dropped, whatever the local zone is; a time of whole seconds is read back
  as itself. A string that \<open>parseDateTime\<close> reads as a UTC time gives the instant it names,
  and writing that instant gives a string that is read as the same instant, again up to
  the fraction. The properties for last modification, start, due date and (when absent)
  creation hold this form after \<open>saveTodos\<close> has written the fields.
\<close>

theorem stored_times_round_trip:
  "HasSuffix (formatUTC t) ''Z''
   \<and> (validStamp (t\<lparr>cNsec := 0\<rparr>) \<longrightarrow> parseDateTime E (formatUTC t) = t\<lparr>cNsec := 0\<rparr>)
   \<and> (\<forall>u. HasSuffix s ''Z'' \<and> parseUTC s = Some u \<longrightarrow>
         parseDateTime E s = u \<and> parseDateTime E (formatUTC u) = u\<lparr>cNsec := 0\<rparr>)
   \<and> propertyValue (writeFields todo props) ''LAST-MODIFIED'' = Some (formatUTC (LastMod todo))
   \<and> (\<not> IsZero (StartDate todo) \<longrightarrow>
        propertyValue (writeFields todo props) ''DTSTART'' = Some (formatUTC (StartDate todo)))
   \<and> (\<not> IsZero (DueDate todo) \<longrightarrow>
        propertyValue (writeFields todo props) ''DUE'' = Some (formatUTC (DueDate todo)))
   \<and> (propertyValue props ''CREATED'' = None \<longrightarrow>
        propertyValue (writeFields todo props) ''CREATED'' = Some (formatUTC (Created todo)))"
proof -
  have a: "\<forall>u. HasSuffix s ''Z'' \<and> parseUTC s = Some u \<longrightarrow>
         parseDateTime E s = u \<and> parseDateTime E (formatUTC u) = u\<lparr>cNsec := 0\<rparr>"
  proof (intro allI impI)
    fix u assume h: "HasSuffix s ''Z'' \<and> parseUTC s = Some u"
    then obtain rest where "parseClock s = Some (u, rest)"
      by (auto simp: parseUTC_def split: option.splits if_splits)
    from parseClock_valid [OF this] have "validStamp (u\<lparr>cNsec := 0\<rparr>)" .
    from parseDateTime_formatUTC [OF this, of E]
    have "parseDateTime E (formatUTC u) = u\<lparr>cNsec := 0\<rparr>" by (simp add: formatUTC_nsec)
    with h show "parseDateTime E s = u \<and> parseDateTime E (formatUTC u) = u\<lparr>cNsec := 0\<rparr>"
      by (simp add: parseDateTime_def)
  qed
  have b: "validStamp (t\<lparr>cNsec := 0\<rparr>) \<longrightarrow> parseDateTime E (formatUTC t) = t\<lparr>cNsec := 0\<rparr>"
    using parseDateTime_formatUTC [of "t\<lparr>cNsec := 0\<rparr>" E] by (simp add: formatUTC_nsec)
  from a b HasSuffix_formatUTC [of t] writeFields_lastmod [of todo props]
    writeFields_dtstart [of todo props] writeFields_due [of todo props]
    writeFields_created [of props todo]
  show ?thesis by blast
qed

definition evening :: Time where
  "evening = \<lparr>cYear = 2024, cMonth = 9, cDay = 18, cHour = 23, cMinute = 0, cSecond = 0,
              cNsec = 0\<rparr>"

theorem stored_times_round_trip_witness:
  "validStamp evening \<and> parseDateTime env0 (formatUTC evening) = evening
   \<and> HasSuffix ''20240918T230000Z'' ''Z'' \<and> parseUTC ''20240918T230000Z'' = Some evening
   \<and> parseDateTime env0 ''20240918T230000Z'' = evening
   \<and> \<not> IsZero (DueDate todo0)
   \<and> propertyValue (writeFields todo0 []) ''DUE'' = Some (formatUTC (DueDate todo0))"
proof -
  have v: "validStamp evening" by (simp add: validStamp_def evening_def daysIn_def)
  have h: "HasSuffix ''20240918T230000Z'' ''Z''" by (simp add: HasSuffix_def)
  have p: "parseUTC ''20240918T230000Z'' = Some evening"
    by (simp add: parseUTC_def parseClock_def fieldVal_def isDigit_def digitVal_def
        digitsVal_def daysIn_def fraction_def evening_def)
  have z: "\<not> IsZero (DueDate todo0)" by (simp add: todo0_def IsZero_def zeroTime_def)
  note t = stored_times_round_trip [of evening env0 "''20240918T230000Z''" todo0 "[]"]
  have e0: "evening\<lparr>cNsec := 0\<rparr> = evening" by (simp add: evening_def)
  from t v e0 have a: "parseDateTime env0 (formatUTC evening) = evening" by simp
  from t h p have b: "parseDateTime env0 ''20240918T230000Z'' = evening" by blast
  from t z have c: "propertyValue (writeFields todo0 []) ''DUE'' = Some (formatUTC (DueDate todo0))"
    by blast
  from v a h p b z c show ?thesis by blast
qed

text \<open>A time with half a second, as \<open>time.Now()\<close> gives for \<open>LastMod\<close>.\<close>

definition halfPast :: Time where
  "halfPast = \<lparr>cYear = 2024, cMonth = 1, cDay = 1, cHour = 0, cMinute = 0, cSecond = 0,
               cNsec = 500000000\<rparr>"

text \<open>
  C7 as stated fails: the stored form has no fraction of a second, so writing a time and
  reading it back gives another instant when the time is not one of whole seconds.
\<close>

theorem sub_second_part_is_dropped:
  "formatUTC halfPast = ''20240101T000000Z''
   \<and> parseDateTime env0 (formatUTC halfPast) = halfPast\<lparr>cNsec := 0\<rparr>
   \<and> parseDateTime env0 (formatUTC halfPast) \<noteq> halfPast"
proof -
  have f: "formatUTC halfPast = ''20240101T000000Z''"
    by code_simp
  have p: "parseDateTime env0 ''20240101T000000Z'' = halfPast\<lparr>cNsec := 0\<rparr>"
    by (simp add: parseDateTime_def HasSuffix_def parseUTC_def parseClock_def fieldVal_def
        isDigit_def digitVal_def digitsVal_def daysIn_def fraction_def halfPast_def)
  from f p show ?thesis by (simp add: halfPast_def)
qed

end
